theory Spec2Isabelle
  imports Complex_Main "HOL-Library.Multiset"
begin

section \<open>Conventions of the embedding\<close>

text \<open>
  The development embeds \<^verbatim>\<open>cameraGeom/geom/svm_wrapper.cpp\<close>.

  \<^item> A C++ \<^verbatim>\<open>double\<close> or \<^verbatim>\<open>float\<close> is a \<^typ>\<open>real\<close>: rounding, overflow and the
    conversions between the two widths are not part of the model. The one exception is the
    sigmoid calibration (\<^verbatim>\<open>CSigmoidParams::prob\<close>), whose result is compared with its
    thresholds at the scale of one rounding error: its arithmetic is IEEE 754 binary64 (see
    the next section).
  \<^item> The only IEEE special value the scoring code can produce is the quotient \<^verbatim>\<open>0/0\<close>
    (not-a-number). A quotient is therefore a \<^typ>\<open>real option\<close>, \<open>None\<close> being
    not-a-number, and the arithmetic that consumes a quotient is lifted to options.
  \<^item> A \<^verbatim>\<open>CHECK(cond, msg)\<close> throws when \<open>cond\<close> holds; a throw is the value
    \<open>Inl (Check msg)\<close>. A read outside a vector or matrix is undefined in C++; the model
    stops there with \<open>Inl OutOfRange\<close>. An exception of the classifier engine
    (\<^verbatim>\<open>cv::Exception\<close>) is \<open>Inl EngineThrow\<close> where it is not caught.
\<close>

datatype error = Check string | OutOfRange | EngineThrow

definition fdiv :: "real \<Rightarrow> real \<Rightarrow> real option" where
  "fdiv a b = (if b = 0 then None else Some (a / b))"

definition fadd :: "real option \<Rightarrow> real option \<Rightarrow> real option" where
  "fadd a b = (case a of None \<Rightarrow> None | Some x \<Rightarrow> (case b of None \<Rightarrow> None | Some y \<Rightarrow> Some (x + y)))"

definition fscale :: "real \<Rightarrow> real option \<Rightarrow> real option" where
  "fscale k a = (case a of None \<Rightarrow> None | Some x \<Rightarrow> Some (k * x))"

text \<open>Sequencing of computations that may throw.\<close>

definition bind_result :: "error + 'a \<Rightarrow> ('a \<Rightarrow> error + 'b) \<Rightarrow> error + 'b" where
  "bind_result m f = (case m of Inl e \<Rightarrow> Inl e | Inr x \<Rightarrow> f x)"

text \<open>Reading element \<open>i\<close> of a \<^verbatim>\<open>std::vector\<close> or of a one-row \<^verbatim>\<open>cv::Mat\<close>.\<close>

definition vec_at :: "'a list \<Rightarrow> int \<Rightarrow> error + 'a" where
  "vec_at xs i = (if 0 \<le> i \<and> i < int (length xs) then Inr (xs ! nat i) else Inl OutOfRange)"

text \<open>
  \<^verbatim>\<open>HUGE\<close> is the macro of \<^verbatim>\<open><math.h>\<close>, the largest finite \<^verbatim>\<open>float\<close>
  \<open>(2^24 - 1) * 2^104\<close>.
\<close>

definition HUGE :: real where
  "HUGE = 340282346638528859811704183484516925440"

section \<open>Binary64 arithmetic\<close>

text \<open>
  A \<^verbatim>\<open>double\<close> of the sigmoid calibration: a finite number, an infinity or not-a-number.
  The sign of a zero is not modelled.
\<close>

datatype double = Finite real | PlusInf | MinusInf | NaN

definition pow2 :: "int \<Rightarrow> real" where
  "pow2 e = (if 0 \<le> e then 2 ^ nat e else 1 / 2 ^ nat (- e))"

text \<open>Rounding to the nearest integer, a tie going to the even one.\<close>

definition round_half_even :: "real \<Rightarrow> int" where
  "round_half_even q =
     (let f = \<lfloor>q\<rfloor>; r = q - of_int f
      in if r < 1 / 2 then f else if 1 / 2 < r then f + 1 else if even f then f else f + 1)"

text \<open>
  The binary exponent of a magnitude \<open>a\<close>, kept within the exponent range of the format:
  the largest \<open>k \<le> 1023\<close> with \<open>2\<^sup>k \<le> a\<close>, or \<open>-1022\<close> when \<open>a\<close> is below the normal numbers.
  The search runs down from 1023.
\<close>

fun binade_from :: "nat \<Rightarrow> int \<Rightarrow> real \<Rightarrow> int" where
  "binade_from 0 k a = k"
| "binade_from (Suc n) k a = (if pow2 k \<le> a then k else binade_from n (k - 1) a)"

definition binade :: "real \<Rightarrow> int" where
  "binade a = binade_from 2045 1023 a"

text \<open>
  The multiple of the unit in the last place (53 significant bits, gradual underflow)
  nearest to \<open>x\<close>, a tie going to the even significand.
\<close>

definition nearest :: "real \<Rightarrow> real" where
  "nearest x =
     (let e = binade \<bar>x\<bar> - 52
      in of_int (round_half_even (x / pow2 e)) * pow2 e)"

text \<open>
  The result of an operation whose exact value is \<open>x\<close>: round to nearest, ties to even; a
  rounded magnitude of \<open>2\<^sup>1\<^sup>0\<^sup>2\<^sup>4\<close> or more overflows to the infinity.
\<close>

definition round_to_double :: "real \<Rightarrow> double" where
  "round_to_double x =
     (let r = nearest x
      in if 2 ^ 1024 \<le> r then PlusInf else if r \<le> - (2 ^ 1024) then MinusInf else Finite r)"

fun d_neg :: "double \<Rightarrow> double" where
  "d_neg (Finite a) = Finite (- a)"
| "d_neg PlusInf = MinusInf"
| "d_neg MinusInf = PlusInf"
| "d_neg NaN = NaN"

fun d_add :: "double \<Rightarrow> double \<Rightarrow> double" where
  "d_add (Finite a) (Finite b) = round_to_double (a + b)"
| "d_add NaN b = NaN"
| "d_add a NaN = NaN"
| "d_add PlusInf MinusInf = NaN"
| "d_add MinusInf PlusInf = NaN"
| "d_add PlusInf b = PlusInf"
| "d_add a PlusInf = PlusInf"
| "d_add MinusInf b = MinusInf"
| "d_add a MinusInf = MinusInf"

definition d_sub :: "double \<Rightarrow> double \<Rightarrow> double" where
  "d_sub a b = d_add a (d_neg b)"

text \<open>The product of an infinity and a finite number \<open>a\<close>, by the sign of \<open>a\<close>.\<close>

definition infinity_of_sign :: "real \<Rightarrow> double" where
  "infinity_of_sign a = (if a = 0 then NaN else if 0 < a then PlusInf else MinusInf)"

fun d_mul :: "double \<Rightarrow> double \<Rightarrow> double" where
  "d_mul (Finite a) (Finite b) = round_to_double (a * b)"
| "d_mul NaN b = NaN"
| "d_mul a NaN = NaN"
| "d_mul (Finite a) PlusInf = infinity_of_sign a"
| "d_mul (Finite a) MinusInf = infinity_of_sign (- a)"
| "d_mul PlusInf (Finite b) = infinity_of_sign b"
| "d_mul MinusInf (Finite b) = infinity_of_sign (- b)"
| "d_mul PlusInf PlusInf = PlusInf"
| "d_mul MinusInf MinusInf = PlusInf"
| "d_mul PlusInf MinusInf = MinusInf"
| "d_mul MinusInf PlusInf = MinusInf"

text \<open>
  A zero divisor counts as \<open>+0\<close>. (The one division of the model, in \<^verbatim>\<open>logisticSigmoid\<close>,
  has a divisor of at least 1 whenever the exponential is not negative.)
\<close>

fun d_div :: "double \<Rightarrow> double \<Rightarrow> double" where
  "d_div (Finite a) (Finite b) = (if b = 0 then infinity_of_sign a else round_to_double (a / b))"
| "d_div NaN b = NaN"
| "d_div a NaN = NaN"
| "d_div (Finite a) b = Finite 0"
| "d_div PlusInf (Finite b) = (if 0 \<le> b then PlusInf else MinusInf)"
| "d_div MinusInf (Finite b) = (if 0 \<le> b then MinusInf else PlusInf)"
| "d_div a b = NaN"

text \<open>
  \<^verbatim>\<open>exp\<close> is the function of the C library, a parameter \<open>libm_exp\<close> of the model on finite
  arguments; on the special values it returns what the C standard (Annex F) prescribes.
\<close>

fun d_exp :: "(real \<Rightarrow> double) \<Rightarrow> double \<Rightarrow> double" where
  "d_exp libm_exp (Finite x) = libm_exp x"
| "d_exp libm_exp PlusInf = PlusInf"
| "d_exp libm_exp MinusInf = Finite 0"
| "d_exp libm_exp NaN = NaN"

section \<open>Sigmoid calibration: \<^verbatim>\<open>CSigmoidParams\<close>\<close>

record CSigmoidParams =
  dThreshLo :: real
  dThreshHi :: real
  dShift :: real
  dScale :: real

text \<open>
  Modelled from the spec: the macro \<^verbatim>\<open>CHECKPROBABILITY\<close> comes from \<^verbatim>\<open>util/convert.h\<close>,
  whose text is not at hand. The spec lists "a probability value outside [0,1]" among the
  fatal numerical errors: the macro throws exactly then.
\<close>

definition CHECKPROBABILITY :: "real \<Rightarrow> error + unit" where
  "CHECKPROBABILITY p = (if p < 0 \<or> 1 < p then Inl (Check ''Probability out of range'') else Inr ())"

definition CHECK :: "bool \<Rightarrow> string \<Rightarrow> error + unit" where
  "CHECK cond msg = (if cond then Inl (Check msg) else Inr ())"

definition validate :: "CSigmoidParams \<Rightarrow> error + unit" where
  "validate p =
     bind_result (CHECKPROBABILITY (dThreshLo p)) (\<lambda>_.
     bind_result (CHECKPROBABILITY (dThreshHi p)) (\<lambda>_.
     bind_result (CHECK (dThreshLo p \<ge> dThreshHi p) ''Bad thresholds'') (\<lambda>_.
     bind_result (CHECK (dScale p \<le> 0) ''Bad scale'') (\<lambda>_.
     CHECK (dThreshLo p \<ge> dThreshHi p) ''Bad thresholds''))))"

text \<open>
  \<^verbatim>\<open>logisticSigmoid\<close> and \<^verbatim>\<open>prob\<close> in binary64, one rounding per operation in the order
  of the source expression. The fields of the parameters and the response are the values
  of the doubles.
\<close>

definition logisticSigmoid :: "(real \<Rightarrow> double) \<Rightarrow> double \<Rightarrow> double" where
  "logisticSigmoid libm_exp x = d_div (Finite 1) (d_add (Finite 1) (d_exp libm_exp (d_neg x)))"

definition prob :: "(real \<Rightarrow> double) \<Rightarrow> CSigmoidParams \<Rightarrow> real \<Rightarrow> double" where
  "prob libm_exp p dResponse =
     d_add (Finite (dThreshLo p))
       (d_mul (d_sub (Finite (dThreshHi p)) (Finite (dThreshLo p)))
          (logisticSigmoid libm_exp
             (d_mul (Finite (dScale p)) (d_sub (Finite dResponse) (Finite (dShift p))))))"

section \<open>Booster states and boosted filters\<close>

text \<open>The fields of \<^verbatim>\<open>CBoosterState\<close> are named by their accessors.\<close>

record CBoosterState =
  getFeatureIdx :: int
  getThreshold :: real
  rejectAbove :: bool

definition CBoosterState_default :: CBoosterState where
  "CBoosterState_default = \<lparr>getFeatureIdx = - 1, getThreshold = HUGE, rejectAbove = False\<rparr>"

text \<open>\<^verbatim>\<open>CBoostedFilter::keepPotentialCandidate(const double)\<close>.\<close>

definition keepPotentialCandidate_val :: "CBoosterState \<Rightarrow> real \<Rightarrow> bool" where
  "keepPotentialCandidate_val state dFeatureVal =
     (if rejectAbove state then dFeatureVal < getThreshold state
      else dFeatureVal > getThreshold state)"

text \<open>
  A feature object \<^verbatim>\<open>CSVMFeature_base\<close>: its dimension and the feature provider
  \<^verbatim>\<open>value_int\<close>. \<^verbatim>\<open>value(nIdx)\<close> reads slot \<open>nIdx\<close> of a cache of \<open>dimension\<close> floats and
  fills the slot from \<^verbatim>\<open>value_int\<close> on the first read; the cache only memoises, so the
  model returns \<open>value_int nIdx\<close>. \<^verbatim>\<open>CHECKBADNUM\<close> rejects not-a-number and infinities,
  which are no reals.
\<close>

record CSVMFeature =
  dimension :: nat
  value_int :: "int \<Rightarrow> real"

definition feature_value :: "CSVMFeature \<Rightarrow> int \<Rightarrow> error + real" where
  "feature_value pFeature nIdx =
     (if 0 \<le> nIdx \<and> nIdx < int (dimension pFeature) then Inr (value_int pFeature nIdx)
      else Inl OutOfRange)"

text \<open>\<^verbatim>\<open>CBoostedFilter::keepPotentialCandidate(CSVMFeature_base*)\<close>.\<close>

definition keepPotentialCandidate_feature :: "CBoosterState \<Rightarrow> CSVMFeature \<Rightarrow> error + bool" where
  "keepPotentialCandidate_feature state pFeature =
     bind_result (feature_value pFeature (getFeatureIdx state)) (\<lambda>dFeatureVal.
       Inr (keepPotentialCandidate_val state dFeatureVal))"

text \<open>\<^verbatim>\<open>CBoostedFilter::keepPotentialCandidate(const cv::Mat&)\<close>, on a training example.\<close>

definition keepPotentialCandidate_mat :: "CBoosterState \<Rightarrow> real list \<Rightarrow> error + bool" where
  "keepPotentialCandidate_mat state feature =
     bind_result (vec_at feature (getFeatureIdx state)) (\<lambda>dFeatureVal.
       Inr (keepPotentialCandidate_val state dFeatureVal))"

text \<open>
  \<^verbatim>\<open>CBoostedFilters::keepPotentialCandidate\<close>: the filters are tried in order and the loop
  returns at the first one that rejects.
\<close>

fun keepPotentialCandidate :: "CBoosterState list \<Rightarrow> CSVMFeature \<Rightarrow> error + bool" where
  "keepPotentialCandidate [] pFeature = Inr True"
| "keepPotentialCandidate (flt # aFilters) pFeature =
     bind_result (keepPotentialCandidate_feature flt pFeature) (\<lambda>keep.
       if \<not> keep then Inr False else keepPotentialCandidate aFilters pFeature)"

section \<open>Feature subset and normalisation: \<^verbatim>\<open>CFeatureSubsetSelecter\<close>\<close>

record CFeatureSubsetSelecter =
  anFeatureIdxSubset :: "int list"
  adNormalisingMean :: "real list"
  adNormalisingScale :: "real list"

definition CFeatureSubsetSelecter_empty :: CFeatureSubsetSelecter where
  "CFeatureSubsetSelecter_empty =
     \<lparr>anFeatureIdxSubset = [], adNormalisingMean = [], adNormalisingScale = []\<rparr>"

text \<open>The loop of \<^verbatim>\<open>selectAndNormalise(CSVMFeature_base*, cv::Mat&)\<close> over the subset.\<close>

fun selectAndNormalise_loop ::
  "CFeatureSubsetSelecter \<Rightarrow> CSVMFeature \<Rightarrow> int list \<Rightarrow> error + real list" where
  "selectAndNormalise_loop sel pFeature [] = Inr []"
| "selectAndNormalise_loop sel pFeature (nIdx # rest) =
     bind_result (vec_at (adNormalisingScale sel) nIdx) (\<lambda>scale.
     bind_result (feature_value pFeature nIdx) (\<lambda>v.
     bind_result (vec_at (adNormalisingMean sel) nIdx) (\<lambda>mean.
     bind_result (selectAndNormalise_loop sel pFeature rest) (\<lambda>out.
       Inr (scale * (v - mean) # out)))))"

definition selectAndNormalise :: "CFeatureSubsetSelecter \<Rightarrow> CSVMFeature \<Rightarrow> error + real list" where
  "selectAndNormalise sel pFeature = selectAndNormalise_loop sel pFeature (anFeatureIdxSubset sel)"

section \<open>The persisted state: \<^verbatim>\<open>CSavedSVMState\<close>\<close>

text \<open>
  \<^verbatim>\<open>TPRLookup\<close> is a pair of vectors: the boundaries and the precision measured at each. A
  precision is a quotient of two counts (\<^verbatim>\<open>computePrecision\<close>), not-a-number when no
  example was labelled positive, so the second vector holds options.

  The loop of \<^verbatim>\<open>interpPrecisionBoundary\<close> runs over the rows \<open>(dBoundary, dPrecision)\<close>; its
  state is \<open>(dBoundary1, dP1, dBoundary2, dP2)\<close>. Both comparisons of the loop body are false
  on a precision that is not-a-number: such a row changes nothing.
\<close>

type_synonym TPRLookup = "real list \<times> real option list"

fun closest_two ::
  "real \<Rightarrow> (real \<times> real option) list \<Rightarrow> real \<times> real \<times> real \<times> real \<Rightarrow> real \<times> real \<times> real \<times> real" where
  "closest_two dTargetPrecision [] (dBoundary1, dP1, dBoundary2, dP2) =
     (dBoundary1, dP1, dBoundary2, dP2)"
| "closest_two dTargetPrecision ((dBoundary, None) # rows) (dBoundary1, dP1, dBoundary2, dP2) =
     closest_two dTargetPrecision rows (dBoundary1, dP1, dBoundary2, dP2)"
| "closest_two dTargetPrecision ((dBoundary, Some dPrecision) # rows) (dBoundary1, dP1, dBoundary2, dP2) =
     (if \<bar>dPrecision - dTargetPrecision\<bar> < \<bar>dP1 - dTargetPrecision\<bar>
      then closest_two dTargetPrecision rows (dBoundary, dPrecision, dBoundary1, dP1)
      else if \<bar>dPrecision - dTargetPrecision\<bar> < \<bar>dP2 - dTargetPrecision\<bar>
      then closest_two dTargetPrecision rows (dBoundary1, dP1, dBoundary, dPrecision)
      else closest_two dTargetPrecision rows (dBoundary1, dP1, dBoundary2, dP2))"

text \<open>
  Modelled from the spec: the test \<^verbatim>\<open>zero\<close> comes from the util headers, whose text is
  not at hand. It tests whether a residual vanishes; over the reals the residual of the
  line fit is exactly 0 whenever it is a number, so the model tests equality with 0.
\<close>

definition zero_dbl :: "real \<Rightarrow> bool" where
  "zero_dbl x = (x = 0)"

text \<open>
  With \<open>dP2 = dP1\<close> the slope \<open>m\<close> is a quotient by 0: infinite or not-a-number, and the
  residual \<open>c - (dBoundary2 - m * dP2)\<close> is then not-a-number, which is not \<^verbatim>\<open>zero\<close>: the
  \<^verbatim>\<open>CHECK\<close> throws.
\<close>

definition interpPrecisionBoundary :: "real \<Rightarrow> TPRLookup \<Rightarrow> error + real" where
  "interpPrecisionBoundary dTargetPrecision PRLookup =
     (if length (snd PRLookup) < length (fst PRLookup) then Inl OutOfRange
      else
        (case closest_two dTargetPrecision (zip (fst PRLookup) (snd PRLookup)) (0, HUGE, 0, HUGE) of
           (dBoundary1, dP1, dBoundary2, dP2) \<Rightarrow>
             if dP2 = dP1 then Inl (Check ''Line fit failed (probably a horizontal line)'')
             else
               (let m = (dBoundary2 - dBoundary1) / (dP2 - dP1);
                    c = dBoundary1 - m * dP1
                in bind_result
                     (CHECK (\<not> zero_dbl (c - (dBoundary2 - m * dP2)))
                        ''Line fit failed (probably a horizontal line)'')
                     (\<lambda>_. Inr (dTargetPrecision * m + c)))))"

record CSavedSVMState =
  getBoosterStates :: "CBoosterState list"
  getFeatureSubset :: CFeatureSubsetSelecter
  getSignCorrection :: real
  getClassificationBoundary :: real
  getSigmoidParams :: CSigmoidParams

text \<open>
  The state file \<^verbatim>\<open>savedSVMstate<label>_subset.yaml\<close>, one field per key. The booster
  states are the rows of a matrix of three columns of doubles. A key that a file may lack
  (\<^verbatim>\<open>fs[key].empty()\<close>) is an option.
\<close>

record state_file =
  yaml_trainingDetails :: string
  yaml_boosterStates :: "(real \<times> real \<times> real) list"
  yaml_signCorrection :: real
  yaml_featureSubset :: "int list"
  yaml_normalisingMean :: "real list"
  yaml_normalisingScale :: "real list"
  yaml_boundaries :: "real list option"
  yaml_precision :: "real option list"
  yaml_sigmoid_thresh_lo :: "real option"
  yaml_sigmoid_thresh_hi :: real
  yaml_sigmoid_scale :: real
  yaml_sigmoid_shift :: real

definition NO_PRECISION :: real where
  "NO_PRECISION = - 1"

text \<open>The C++ conversions \<^verbatim>\<open>(int)d\<close> (towards zero) and \<^verbatim>\<open>(bool)d\<close> of a double.\<close>

definition int_of_double :: "real \<Rightarrow> int" where
  "int_of_double d = (if 0 \<le> d then \<lfloor>d\<rfloor> else \<lceil>d\<rceil>)"

definition bool_of_double :: "real \<Rightarrow> bool" where
  "bool_of_double d = (d \<noteq> 0)"

definition CSigmoidParams_default :: CSigmoidParams where
  "CSigmoidParams_default = \<lparr>dThreshLo = 0.1, dThreshHi = 0.9, dShift = 0, dScale = 1\<rparr>"

text \<open>The loading constructor; \<open>None\<close> is a state file that does not exist.\<close>

definition CSavedSVMState_load :: "state_file option \<Rightarrow> real \<Rightarrow> error + CSavedSVMState" where
  "CSavedSVMState_load file dPrecision =
     (case file of
        None \<Rightarrow> Inl (Check ''Saved SVM state file doesn't exist'')
      | Some fs \<Rightarrow>
          bind_result
            (case yaml_boundaries fs of
               None \<Rightarrow> Inr 0
             | Some boundaries \<Rightarrow>
                 if dPrecision \<noteq> NO_PRECISION
                 then interpPrecisionBoundary dPrecision (boundaries, yaml_precision fs)
                 else Inr 0)
            (\<lambda>boundary. Inr
              \<lparr>getBoosterStates =
                 map (\<lambda>(r0, r1, r2).
                        \<lparr>getFeatureIdx = int_of_double r0, getThreshold = r1,
                         rejectAbove = bool_of_double r2\<rparr>)
                   (yaml_boosterStates fs),
               getFeatureSubset =
                 \<lparr>anFeatureIdxSubset = yaml_featureSubset fs,
                  adNormalisingMean = yaml_normalisingMean fs,
                  adNormalisingScale = yaml_normalisingScale fs\<rparr>,
               getSignCorrection = yaml_signCorrection fs,
               getClassificationBoundary = boundary,
               getSigmoidParams =
                 (case yaml_sigmoid_thresh_lo fs of
                    None \<Rightarrow> CSigmoidParams_default
                  | Some lo \<Rightarrow>
                      \<lparr>dThreshLo = lo, dThreshHi = yaml_sigmoid_thresh_hi fs,
                       dShift = yaml_sigmoid_shift fs, dScale = yaml_sigmoid_scale fs\<rparr>)\<rparr>))"

text \<open>
  The saving constructor writes every key; the model returns the file written. (The model
  file of the engine, written beside it when the sign correction is not 0, is not part of
  the state file.)
\<close>

definition CSavedSVMState_save ::
  "CBoosterState list \<Rightarrow> CFeatureSubsetSelecter \<Rightarrow> real \<Rightarrow> TPRLookup \<Rightarrow> CSigmoidParams \<Rightarrow> string
     \<Rightarrow> state_file" where
  "CSavedSVMState_save boosterStates featureSubset signCorrection PRLookup sigmoid trainingDetails =
     \<lparr>yaml_trainingDetails = trainingDetails,
      yaml_boosterStates =
        map (\<lambda>b. (real_of_int (getFeatureIdx b), getThreshold b, if rejectAbove b then 1 else 0))
          boosterStates,
      yaml_signCorrection = signCorrection,
      yaml_featureSubset = anFeatureIdxSubset featureSubset,
      yaml_normalisingMean = adNormalisingMean featureSubset,
      yaml_normalisingScale = adNormalisingScale featureSubset,
      yaml_boundaries = Some (fst PRLookup),
      yaml_precision = snd PRLookup,
      yaml_sigmoid_thresh_lo = Some (dThreshLo sigmoid),
      yaml_sigmoid_thresh_hi = dThreshHi sigmoid,
      yaml_sigmoid_scale = dScale sigmoid,
      yaml_sigmoid_shift = dShift sigmoid\<rparr>"

section \<open>The runtime classifier: \<^verbatim>\<open>CSVMClassifier\<close>\<close>

text \<open>
  The classifier engine is external. \<open>svm_predict\<close> is the raw prediction
  \<^verbatim>\<open>svm.predict(feature, true)\<close> of the classifier's engine object; \<open>None\<close> is the engine
  throwing \<^verbatim>\<open>cv::Exception\<close>.
\<close>

record CSVMClassifier =
  savedState :: CSavedSVMState
  boostedFilters :: "CBoosterState list"
  featureSubsetSelecter :: CFeatureSubsetSelecter
  svm_predict :: "real list \<Rightarrow> real option"

text \<open>
  The constructor: \<open>svm_load\<close> is the prediction function of the engine model read from the
  model file, loaded only when the sign correction is not 0; an engine that has loaded no
  model predicts nothing.
\<close>

definition makeSVMClassifier ::
  "state_file option \<Rightarrow> (real list \<Rightarrow> real option) \<Rightarrow> real \<Rightarrow> error + CSVMClassifier" where
  "makeSVMClassifier file svm_load dPrecision =
     bind_result (CSavedSVMState_load file dPrecision) (\<lambda>st. Inr
       \<lparr>savedState = st,
        boostedFilters = getBoosterStates st,
        featureSubsetSelecter = getFeatureSubset st,
        svm_predict = (if getSignCorrection st \<noteq> 0 then svm_load else (\<lambda>_. None))\<rparr>)"

text \<open>
  \<^verbatim>\<open>classify\<close> returns the score; the model returns beside it the list of the vectors handed
  to the engine, in call order, so that "the engine is not called" is the empty list.
\<close>

definition classify :: "CSVMClassifier \<Rightarrow> CSVMFeature \<Rightarrow> error + (real \<times> real list list)" where
  "classify c pFeature =
     bind_result (keepPotentialCandidate (boostedFilters c) pFeature) (\<lambda>keep.
       if \<not> keep then Inr (- 1, [])
       else if getSignCorrection (savedState c) = 0 then Inr (1, [])
       else
         bind_result (selectAndNormalise (featureSubsetSelecter c) pFeature) (\<lambda>feature.
           (case svm_predict c feature of
              None \<Rightarrow> Inl EngineThrow
            | Some raw \<Rightarrow>
                (let dSVMVal = raw - getClassificationBoundary (savedState c)
                 in Inr (getSignCorrection (savedState c) * dSVMVal, [feature])))))"

text \<open>
  \<^verbatim>\<open>probability\<close> returns the probability and writes the score to \<^verbatim>\<open>*pdScore\<close>. An
  infinite \<^verbatim>\<open>dProb\<close> is outside \<open>[0, 1]\<close>, and the final \<^verbatim>\<open>CHECKPROBABILITY\<close> throws. What
  the macro does with not-a-number depends on its text; the model throws there too, and
  that branch is never taken: after \<^verbatim>\<open>validate\<close> has passed, \<^verbatim>\<open>prob\<close> returns a finite
  number (\<open>prob_bounds\<close> below).
\<close>

definition probability ::
  "(real \<Rightarrow> double) \<Rightarrow> CSVMClassifier \<Rightarrow> CSVMFeature \<Rightarrow> error + (real \<times> real)" where
  "probability libm_exp c pFeature =
     bind_result (validate (getSigmoidParams (savedState c))) (\<lambda>_.
     bind_result (classify c pFeature) (\<lambda>(dScore, calls).
       (case prob libm_exp (getSigmoidParams (savedState c)) dScore of
          Finite dProb \<Rightarrow> bind_result (CHECKPROBABILITY dProb) (\<lambda>_. Inr (dProb, dScore))
        | PlusInf \<Rightarrow> Inl (Check ''Probability out of range'')
        | MinusInf \<Rightarrow> Inl (Check ''Probability out of range'')
        | NaN \<Rightarrow> Inl (Check ''Probability out of range''))))"

section \<open>Scoring a validation set\<close>

definition svmClass :: "real \<Rightarrow> bool" where
  "svmClass fScore = (fScore > 0)"

text \<open>
  \<^verbatim>\<open>pClassWeights\<close> is a 2x1 matrix: row 0 holds the weight of the negative class, row 1
  that of the positive class; \<^verbatim>\<open>cvmGet(pClassWeights, bGTClass, 0)\<close> reads the row of a class.
\<close>

record class_weights =
  w_neg :: real
  w_pos :: real

definition cvmGet :: "class_weights \<Rightarrow> bool \<Rightarrow> real" where
  "cvmGet w bGTClass = (if bGTClass then w_pos w else w_neg w)"

text \<open>
  The loop of \<^verbatim>\<open>computeTotalSuccessRate\<close> over the rows \<open>(label, test_label)\<close>; the
  accumulator is \<open>(dTotalScore, dTotalErrorScore)\<close>.
\<close>

fun total_scores :: "class_weights \<Rightarrow> (real \<times> real) list \<Rightarrow> real \<times> real \<Rightarrow> real \<times> real" where
  "total_scores w [] (dTotalScore, dTotalErrorScore) = (dTotalScore, dTotalErrorScore)"
| "total_scores w ((label, test_label) # rows) (dTotalScore, dTotalErrorScore) =
     (let bGTClass = svmClass label;
          dAbsLabel = \<bar>cvmGet w bGTClass\<bar>;
          bPredictedClass = svmClass test_label
      in total_scores w rows
           (dTotalScore + dAbsLabel,
            if bGTClass \<noteq> bPredictedClass then dTotalErrorScore + dAbsLabel else dTotalErrorScore))"

text \<open>
  \<^verbatim>\<open>computeTotalSuccessRate\<close> returns the rate and writes \<^verbatim>\<open>dSignCorrection\<close>; the model
  returns the pair \<open>(rate, dSignCorrection)\<close>. The loop reads row \<open>i\<close> of both matrices for
  every \<open>i < labels.rows\<close>.
\<close>

definition computeTotalSuccessRate ::
  "class_weights \<Rightarrow> real list \<Rightarrow> real list \<Rightarrow> error + (real option \<times> real)" where
  "computeTotalSuccessRate w labels test_labels =
     (if length test_labels < length labels then Inl OutOfRange
      else
        (case total_scores w (zip labels test_labels) (0, 0) of
           (dTotalScore, dTotalErrorScore) \<Rightarrow>
             if dTotalErrorScore < 0.5 * dTotalScore
             then Inr (fdiv (dTotalScore - dTotalErrorScore) dTotalScore, 1)
             else Inr (fdiv dTotalErrorScore dTotalScore, - 1)))"

text \<open>
  The inner loop of \<^verbatim>\<open>computeBSR\<close> for one class \<open>bLabel\<close>; the accumulator is
  \<open>(dErrors, dExamples)\<close>.
\<close>

fun class_counts :: "bool \<Rightarrow> real \<Rightarrow> (real \<times> real) list \<Rightarrow> real \<times> real \<Rightarrow> real \<times> real" where
  "class_counts bLabel dSignCorrection [] (dErrors, dExamples) = (dErrors, dExamples)"
| "class_counts bLabel dSignCorrection ((labelGT, test_label) # rows) (dErrors, dExamples) =
     (let bGTClass = svmClass labelGT
      in if bGTClass = bLabel
         then (let bPredictedClass = svmClass (dSignCorrection * test_label)
               in class_counts bLabel dSignCorrection rows
                    (if bGTClass \<noteq> bPredictedClass then dErrors + 1 else dErrors, dExamples + 1))
         else class_counts bLabel dSignCorrection rows (dErrors, dExamples))"

definition dClassSuccessRate :: "bool \<Rightarrow> real \<Rightarrow> (real \<times> real) list \<Rightarrow> real option" where
  "dClassSuccessRate bLabel dSignCorrection rows =
     (case class_counts bLabel dSignCorrection rows (0, 0) of
        (dErrors, dExamples) \<Rightarrow> fdiv (dExamples - dErrors) dExamples)"

definition computeBSR :: "real list \<Rightarrow> real list \<Rightarrow> real \<Rightarrow> error + real option" where
  "computeBSR labels test_labels dSignCorrection =
     (if length test_labels < length labels then Inl OutOfRange
      else
        (let rows = zip labels test_labels;
             dBSR0 = fadd (Some 0) (fscale 0.5 (dClassSuccessRate False dSignCorrection rows));
             dBSR1 = fadd dBSR0 (fscale 0.5 (dClassSuccessRate True dSignCorrection rows))
         in Inr dBSR1))"

text \<open>The quantities the scoring is described with, stated without the loops.\<close>

definition abs_weight :: "class_weights \<Rightarrow> real \<Rightarrow> real" where
  "abs_weight w label = \<bar>cvmGet w (svmClass label)\<bar>"

definition total_weight :: "class_weights \<Rightarrow> (real \<times> real) list \<Rightarrow> real" where
  "total_weight w rows = (\<Sum>r\<leftarrow>rows. abs_weight w (fst r))"

definition weighted_error :: "class_weights \<Rightarrow> (real \<times> real) list \<Rightarrow> real" where
  "weighted_error w rows =
     (\<Sum>r\<leftarrow>rows. if svmClass (fst r) \<noteq> svmClass (snd r) then abs_weight w (fst r) else 0)"

section \<open>Vocabulary of the statements about the classifier\<close>

text \<open>A stage keeps a feature when its threshold test passes on the value of its index.\<close>

definition stage_keeps :: "CSVMFeature \<Rightarrow> CBoosterState \<Rightarrow> bool" where
  "stage_keeps pFeature state =
     keepPotentialCandidate_val state (value_int pFeature (getFeatureIdx state))"

text \<open>Every index the cascade reads lies within the feature's dimension.\<close>

definition cascade_readable :: "CBoosterState list \<Rightarrow> CSVMFeature \<Rightarrow> bool" where
  "cascade_readable aFilters pFeature =
     list_all (\<lambda>s. 0 \<le> getFeatureIdx s \<and> getFeatureIdx s < int (dimension pFeature)) aFilters"

text \<open>
  Every selected index lies within the feature's dimension and within the two vectors of
  normalising coefficients.
\<close>

definition subset_readable :: "CFeatureSubsetSelecter \<Rightarrow> CSVMFeature \<Rightarrow> bool" where
  "subset_readable sel pFeature =
     list_all (\<lambda>i. 0 \<le> i \<and> i < int (dimension pFeature)
                  \<and> i < int (length (adNormalisingMean sel))
                  \<and> i < int (length (adNormalisingScale sel)))
       (anFeatureIdxSubset sel)"

text \<open>The normalised projection of a feature on the selected subset, in subset order.\<close>

definition normalised_subset :: "CFeatureSubsetSelecter \<Rightarrow> CSVMFeature \<Rightarrow> real list" where
  "normalised_subset sel pFeature =
     map (\<lambda>i. adNormalisingScale sel ! nat i * (value_int pFeature i - adNormalisingMean sel ! nat i))
       (anFeatureIdxSubset sel)"

text \<open>The sigmoid parameters that \<^verbatim>\<open>validate\<close> is meant to let through.\<close>

definition sigmoid_valid :: "CSigmoidParams \<Rightarrow> bool" where
  "sigmoid_valid p =
     (0 \<le> dThreshLo p \<and> dThreshLo p < dThreshHi p \<and> dThreshHi p \<le> 1 \<and> 0 < dScale p)"

text \<open>A number that is the value of a double.\<close>

definition is_double :: "real \<Rightarrow> bool" where
  "is_double x = (round_to_double x = Finite x)"

text \<open>
  What the statements ask of the library's exponential: on a finite argument it returns a
  number that is not negative, or the positive infinity.
\<close>

definition exp_sane :: "(real \<Rightarrow> double) \<Rightarrow> bool" where
  "exp_sane libm_exp =
     (\<forall>x. case libm_exp x of Finite e \<Rightarrow> 0 \<le> e | PlusInf \<Rightarrow> True
                          | MinusInf \<Rightarrow> False | NaN \<Rightarrow> False)"

text \<open>The correctly rounded exponential, the library function of the worked instances.\<close>

definition exp_rounded :: "real \<Rightarrow> double" where
  "exp_rounded x = round_to_double (exp x)"

text \<open>The doubles of the literals \<^verbatim>\<open>0.3\<close> and \<^verbatim>\<open>0.9\<close>.\<close>

definition double_0_3 :: real where
  "double_0_3 = 5404319552844595 / 2 ^ 54"

definition double_0_9 :: real where
  "double_0_9 = 8106479329266893 / 2 ^ 53"

text \<open>
  A small classifier for the worked instances: one stage that keeps a feature whose value
  at index 0 is above 1, the subset \<open>[1]\<close> with mean 1 and scale 2 at index 1, boundary
  \<open>1/2\<close>, and an engine that answers the sum of the vector it is handed.
\<close>

definition ex_stage :: CBoosterState where
  "ex_stage = \<lparr>getFeatureIdx = 0, getThreshold = 1, rejectAbove = False\<rparr>"

definition ex_selecter :: CFeatureSubsetSelecter where
  "ex_selecter =
     \<lparr>anFeatureIdxSubset = [1], adNormalisingMean = [0, 1], adNormalisingScale = [1, 2]\<rparr>"

definition ex_classifier :: "real \<Rightarrow> CSigmoidParams \<Rightarrow> CSVMClassifier" where
  "ex_classifier sign sigmoid =
     \<lparr>savedState =
        \<lparr>getBoosterStates = [ex_stage], getFeatureSubset = ex_selecter,
         getSignCorrection = sign, getClassificationBoundary = 1 / 2,
         getSigmoidParams = sigmoid\<rparr>,
      boostedFilters = [ex_stage],
      featureSubsetSelecter = ex_selecter,
      svm_predict = (\<lambda>x. Some (sum_list x))\<rparr>"

definition ex_feature :: "real \<Rightarrow> real \<Rightarrow> CSVMFeature" where
  "ex_feature v0 v1 = \<lparr>dimension = 2, value_int = (\<lambda>i. if i = 0 then v0 else v1)\<rparr>"

section \<open>Vocabulary of the statements about the boundary lookup\<close>

text \<open>The rows of a lookup whose precision is a number.\<close>

definition numbered :: "(real \<times> real option) list \<Rightarrow> (real \<times> real) list" where
  "numbered rows = concat (map (\<lambda>(b, p). case p of None \<Rightarrow> [] | Some q \<Rightarrow> [(b, q)]) rows)"

definition stored_samples :: "TPRLookup \<Rightarrow> (real \<times> real) list" where
  "stored_samples PRLookup = numbered (zip (fst PRLookup) (snd PRLookup))"

text \<open>The lookup table of the scenario, and a state file that stores it.\<close>

definition scenario_lookup :: TPRLookup where
  "scenario_lookup = ([- 1, 0, 1], [Some (5 / 10), Some (8 / 10), Some (95 / 100)])"

definition scenario_file :: state_file where
  "scenario_file = CSavedSVMState_save [] ex_selecter 1 scenario_lookup CSigmoidParams_default []"

section \<open>Training examples\<close>

text \<open>
  \<^verbatim>\<open>aaadFeatures[2]\<close>: the negative examples (index 0) and the positive examples (index 1),
  each example a row of floats.
\<close>

type_synonym TLabelledFeatures = "real list list"

record labelled_features =
  negatives :: TLabelledFeatures
  positives :: TLabelledFeatures

text \<open>Reading \<^verbatim>\<open>feature.at<float>(nIdx)\<close> of every example of a list, in order.\<close>

fun column :: "TLabelledFeatures \<Rightarrow> int \<Rightarrow> error + real list" where
  "column [] nIdx = Inr []"
| "column (feature # rest) nIdx =
     bind_result (vec_at feature nIdx) (\<lambda>v.
     bind_result (column rest nIdx) (\<lambda>vs. Inr (v # vs)))"

section \<open>Normalising coefficients: \<^verbatim>\<open>findNormalisingCoeffs\<close>\<close>

text \<open>
  \<^verbatim>\<open>meanSD\<close> comes from \<^verbatim>\<open>util/vectorUtil.h\<close>, whose text is not at hand: it is a
  parameter \<open>meanSD\<close> of the embedding, a function from the values to the pair (mean,
  standard deviation). The per-feature overload returns \<open>(dMean, dScale)\<close>.
\<close>

definition findNormalisingCoeffs_feature ::
  "(real list \<Rightarrow> real \<times> real) \<Rightarrow> labelled_features \<Rightarrow> int \<Rightarrow> error + (real \<times> real)" where
  "findNormalisingCoeffs_feature meanSD aaadFeatures nFeature =
     bind_result (column (negatives aaadFeatures @ positives aaadFeatures) nFeature) (\<lambda>adVals.
       (case meanSD adVals of
          (dMean, dSD) \<Rightarrow> Inr (dMean, if dSD > 0 then 1 / dSD else 1)))"

text \<open>
  The loop over the feature indices. \<^verbatim>\<open>CHECKBADNUM\<close> rejects not-a-number and infinities,
  which are no reals.
\<close>

fun findNormalisingCoeffs_loop ::
  "(real list \<Rightarrow> real \<times> real) \<Rightarrow> labelled_features \<Rightarrow> nat list \<Rightarrow> error + (real \<times> real) list" where
  "findNormalisingCoeffs_loop meanSD aaadFeatures [] = Inr []"
| "findNormalisingCoeffs_loop meanSD aaadFeatures (nFeature # rest) =
     bind_result (findNormalisingCoeffs_feature meanSD aaadFeatures (int nFeature)) (\<lambda>coeff.
     bind_result (CHECK (snd coeff = 0) ''Bad scale'') (\<lambda>_.
     bind_result (findNormalisingCoeffs_loop meanSD aaadFeatures rest) (\<lambda>coeffs.
       Inr (coeff # coeffs))))"

text \<open>\<open>nDims\<close> is read from the first negative example, \<^verbatim>\<open>aaadFeatures[false][0].cols\<close>.\<close>

definition findNormalisingCoeffs ::
  "(real list \<Rightarrow> real \<times> real) \<Rightarrow> CFeatureSubsetSelecter \<Rightarrow> labelled_features
     \<Rightarrow> error + CFeatureSubsetSelecter" where
  "findNormalisingCoeffs meanSD sel aaadFeatures =
     (case negatives aaadFeatures of
        [] \<Rightarrow> Inl OutOfRange
      | first # _ \<Rightarrow>
          (let nDims = length first
           in bind_result (findNormalisingCoeffs_loop meanSD aaadFeatures [0..<nDims]) (\<lambda>coeffs.
                Inr (sel\<lparr>adNormalisingMean := map fst coeffs,
                         adNormalisingScale := map snd coeffs\<rparr>))))"

text \<open>
  Modelled from the spec: the text of \<^verbatim>\<open>meanSD\<close> is not at hand. The spec describes the
  coefficients as the mean and the standard deviation of the values; this instance (the
  mean, and the root of the mean squared deviation) serves the worked instances only.
\<close>

definition meanSD_population :: "real list \<Rightarrow> real \<times> real" where
  "meanSD_population adVals =
     (let n = real (length adVals);
          dMean = sum_list adVals / n
      in (dMean, sqrt (sum_list (map (\<lambda>v. (v - dMean) * (v - dMean)) adVals) / n)))"

section \<open>Construction of the boosting cascade\<close>

text \<open>
  The loop of \<^verbatim>\<open>findBoosterState\<close> over \<open>i < size - 1\<close>: \<open>cur\<close> is \<^verbatim>\<open>aSortedFeatures[i]\<close> and
  \<open>nxt\<close> is \<^verbatim>\<open>aSortedFeatures[i + 1]\<close>; the state is
  \<open>(dPos, dNeg, dBestThreshPosBelow, dNumRemovedBelow)\<close>. The last element is never counted.
\<close>

fun split_scan :: "(real \<times> bool) list \<Rightarrow> real \<times> real \<times> real \<times> real \<Rightarrow> real \<times> real" where
  "split_scan (cur # nxt # rest) (dPos, dNeg, dBestThreshPosBelow, dNumRemovedBelow) =
     (let dPos' = (if snd cur then dPos + 1 else dPos);
          dNeg' = (if snd cur then dNeg else dNeg + 1)
      in if dPos' < 0.0005 * dNeg' \<and> fst cur \<noteq> fst nxt
         then split_scan (nxt # rest) (dPos', dNeg', 0.5 * (fst cur + fst nxt), dNeg')
         else split_scan (nxt # rest) (dPos', dNeg', dBestThreshPosBelow, dNumRemovedBelow))"
| "split_scan aSortedFeatures (dPos, dNeg, dBestThreshPosBelow, dNumRemovedBelow) =
     (dBestThreshPosBelow, dNumRemovedBelow)"

text \<open>
  \<^verbatim>\<open>std::sort\<close> with \<^verbatim>\<open>sortByOneFeature_asc\<close> or \<^verbatim>\<open>sortByOneFeature_desc\<close> orders by the
  feature value alone, ascending or descending, and does not specify the order it leaves
  among equal values. The sort is therefore a parameter \<open>std_sort\<close> of the embedding, which
  takes the direction and the vector; what is known of it is that it returns a permutation
  of the vector in the order of the comparator. \<open>sort_features\<close>, a stable sort, is one
  such function.
\<close>

type_synonym std_sort_t = "bool \<Rightarrow> (real \<times> bool) list \<Rightarrow> (real \<times> bool) list"

definition sort_value :: "bool \<Rightarrow> real \<times> bool \<Rightarrow> real" where
  "sort_value bRejectAbove x = (if bRejectAbove then - fst x else fst x)"

definition sorts_by_one_feature :: "std_sort_t \<Rightarrow> bool" where
  "sorts_by_one_feature std_sort =
     (\<forall>bRejectAbove aFeatures.
        sorted (map (sort_value bRejectAbove) (std_sort bRejectAbove aFeatures))
        \<and> mset (std_sort bRejectAbove aFeatures) = mset aFeatures)"

definition sort_features :: std_sort_t where
  "sort_features bRejectAbove aFeatures =
     (if bRejectAbove then sort_key (\<lambda>x. - fst x) aFeatures else sort_key fst aFeatures)"

type_synonym TBoosterCandidate = "real \<times> CBoosterState"

text \<open>
  With no negative example the quotient \<^verbatim>\<open>dNumRemovedBelow / size\<close> is \<open>-1/0\<close>, minus
  infinity, which is below \<^verbatim>\<open>dMinimumPower\<close>.
\<close>

definition findBoosterState ::
  "std_sort_t \<Rightarrow> labelled_features \<Rightarrow> int \<Rightarrow> bool \<Rightarrow> error + TBoosterCandidate" where
  "findBoosterState std_sort aaadFeatures nIdx bRejectAbove =
     bind_result (column (negatives aaadFeatures) nIdx) (\<lambda>negVals.
     bind_result (column (positives aaadFeatures) nIdx) (\<lambda>posVals.
       (let aSortedFeatures =
              std_sort bRejectAbove
                (map (\<lambda>v. (v, False)) negVals @ map (\<lambda>v. (v, True)) posVals)
        in (case split_scan aSortedFeatures (0, 0, - HUGE, - 1) of
              (dBestThreshPosBelow, dNumRemovedBelow) \<Rightarrow>
                (let dMinimumPower = 0.1;
                     nNeg = length (negatives aaadFeatures);
                     dPropOfNegativeExamplesRemoved = dNumRemovedBelow / real nNeg
                 in if (nNeg = 0 \<or> dPropOfNegativeExamplesRemoved < dMinimumPower)
                         \<or> dNumRemovedBelow < 150
                    then Inr (0, CBoosterState_default)
                    else Inr (dPropOfNegativeExamplesRemoved,
                              \<lparr>getFeatureIdx = nIdx, getThreshold = dBestThreshPosBelow,
                               rejectAbove = bRejectAbove\<rparr>))))))"

text \<open>
  The two nested loops of \<^verbatim>\<open>findBestBoosterState\<close>, over the candidates
  \<open>(nRejectAbove, nIdx)\<close> in the order the loops visit them.
\<close>

fun best_candidate_loop ::
  "std_sort_t \<Rightarrow> labelled_features \<Rightarrow> (bool \<times> int) list \<Rightarrow> TBoosterCandidate \<Rightarrow> error + TBoosterCandidate" where
  "best_candidate_loop std_sort aaadFeatures [] bestBoosterCandidate = Inr bestBoosterCandidate"
| "best_candidate_loop std_sort aaadFeatures ((bRejectAbove, nIdx) # rest) bestBoosterCandidate =
     bind_result (findBoosterState std_sort aaadFeatures nIdx bRejectAbove) (\<lambda>boosterCandidate.
       best_candidate_loop std_sort aaadFeatures rest
         (if fst boosterCandidate > fst bestBoosterCandidate then boosterCandidate
          else bestBoosterCandidate))"

definition candidates :: "nat \<Rightarrow> (bool \<times> int) list" where
  "candidates nDims = concat (map (\<lambda>b. map (\<lambda>i. (b, int i)) [0..<nDims]) [False, True])"

definition findBestBoosterState :: "std_sort_t \<Rightarrow> labelled_features \<Rightarrow> error + CBoosterState" where
  "findBestBoosterState std_sort aaadFeatures =
     (case negatives aaadFeatures of
        [] \<Rightarrow> Inl OutOfRange
      | first # _ \<Rightarrow>
          bind_result
            (best_candidate_loop std_sort aaadFeatures (candidates (length first))
               (0, CBoosterState_default))
            (\<lambda>bestBoosterCandidate. Inr (snd bestBoosterCandidate)))"

text \<open>The filtering of one label's examples by a new stage.\<close>

fun filter_examples :: "CBoosterState \<Rightarrow> TLabelledFeatures \<Rightarrow> error + TLabelledFeatures" where
  "filter_examples state [] = Inr []"
| "filter_examples state (feature # rest) =
     bind_result (keepPotentialCandidate_mat state feature) (\<lambda>keep.
     bind_result (filter_examples state rest) (\<lambda>newFeatures.
       Inr (if keep then feature # newFeatures else newFeatures)))"

text \<open>
  One pass through the body of the \<^verbatim>\<open>for(;;)\<close> loop of \<^verbatim>\<open>findBoosterStates\<close>: \<open>Inr None\<close>
  when the loop returns, else the stage found and the filtered examples.
\<close>

definition boosting_round ::
  "std_sort_t \<Rightarrow> labelled_features \<Rightarrow> error + (CBoosterState \<times> labelled_features) option" where
  "boosting_round std_sort aaadFeatures =
     bind_result (findBestBoosterState std_sort aaadFeatures) (\<lambda>boosterState.
       if getFeatureIdx boosterState < 0 then Inr None
       else
         bind_result (filter_examples boosterState (negatives aaadFeatures)) (\<lambda>newNegatives.
         bind_result (filter_examples boosterState (positives aaadFeatures)) (\<lambda>newPositives.
         bind_result
           (CHECK (length newNegatives \<ge> length (negatives aaadFeatures)) ''Boosting failed'')
           (\<lambda>_. Inr (Some (boosterState,
                           \<lparr>negatives = newNegatives, positives = newPositives\<rparr>))))))"

lemma boosting_round_decreases:
  "boosting_round std_sort aaadFeatures = Inr (Some (boosterState, newFeatures)) \<Longrightarrow>
   length (negatives newFeatures) < length (negatives aaadFeatures)"
  by (auto simp: boosting_round_def bind_result_def CHECK_def split: sum.splits if_splits)

function findBoosterStates_loop ::
  "std_sort_t \<Rightarrow> labelled_features \<Rightarrow> CBoosterState list
     \<Rightarrow> error + (CBoosterState list \<times> labelled_features)" where
  "findBoosterStates_loop std_sort aaadFeatures aBoosterStates =
     (case boosting_round std_sort aaadFeatures of
        Inl e \<Rightarrow> Inl e
      | Inr None \<Rightarrow> Inr (aBoosterStates, aaadFeatures)
      | Inr (Some (boosterState, newFeatures)) \<Rightarrow>
          findBoosterStates_loop std_sort newFeatures (aBoosterStates @ [boosterState]))"
  by pat_completeness auto
termination
  by (relation "measure (\<lambda>(std_sort, aaadFeatures, aBoosterStates). length (negatives aaadFeatures))")
     (auto simp: boosting_round_decreases)

text \<open>
  \<^verbatim>\<open>findBoosterStates\<close> returns the cascade and leaves the filtered examples in
  \<^verbatim>\<open>aaadFeatures\<close>.
\<close>

definition findBoosterStates ::
  "std_sort_t \<Rightarrow> labelled_features \<Rightarrow> error + (CBoosterState list \<times> labelled_features)" where
  "findBoosterStates std_sort aaadFeatures = findBoosterStates_loop std_sort aaadFeatures []"

section \<open>Vocabulary of the statements about the training examples\<close>

text \<open>The examples of both classes, negatives first, as the code collects them.\<close>

definition all_examples :: "labelled_features \<Rightarrow> TLabelledFeatures" where
  "all_examples aaadFeatures = negatives aaadFeatures @ positives aaadFeatures"

text \<open>The number of feature indices: the width of the first negative example.\<close>

definition nDims_of :: "labelled_features \<Rightarrow> nat" where
  "nDims_of aaadFeatures = (case negatives aaadFeatures of [] \<Rightarrow> 0 | first # _ \<Rightarrow> length first)"

text \<open>The values of feature \<open>i\<close> over both classes combined.\<close>

definition feature_values :: "labelled_features \<Rightarrow> nat \<Rightarrow> real list" where
  "feature_values aaadFeatures i = map (\<lambda>feature. feature ! i) (all_examples aaadFeatures)"

text \<open>The scale that belongs to a standard deviation.\<close>

definition scale_of :: "real \<Rightarrow> real" where
  "scale_of dSD = (if dSD > 0 then 1 / dSD else 1)"

text \<open>Two examples of two features each: feature 0 separates them, feature 1 is constant.\<close>

definition ex_two_examples :: labelled_features where
  "ex_two_examples = \<lparr>negatives = [[0, 5]], positives = [[4, 5]]\<rparr>"

section \<open>Vocabulary of the statements about the cascade construction\<close>

text \<open>
  The numbers of negative and of positive entries of a list of labelled feature values, the
  and a training set for the worked instances: \<open>n\<close>
  negative examples of value 0 and one of value 2, one positive example of value 1.
\<close>

definition count_neg :: "(real \<times> bool) list \<Rightarrow> nat" where
  "count_neg xs = length (filter (\<lambda>x. \<not> snd x) xs)"

definition count_pos :: "(real \<times> bool) list \<Rightarrow> nat" where
  "count_pos xs = length (filter snd xs)"

definition ex_boost :: "nat \<Rightarrow> labelled_features" where
  "ex_boost n = \<lparr>negatives = replicate n [0] @ [[2]], positives = [[1]]\<rparr>"

definition ex_boost_stage :: CBoosterState where
  "ex_boost_stage = \<lparr>getFeatureIdx = 0, getThreshold = 1 / 2, rejectAbove = False\<rparr>"

definition ex_boost_rest :: labelled_features where
  "ex_boost_rest = \<lparr>negatives = [[2]], positives = [[1]]\<rparr>"

section \<open>Cross-validation: \<^verbatim>\<open>propCorrect\<close> and the fold sets\<close>












section \<open>The search over hyperparameter points: \<^verbatim>\<open>trainHyperparameters\<close>\<close>







section \<open>The training run: \<^verbatim>\<open>~CSVMTraining\<close>\<close>

definition computeNegWeight :: "real \<Rightarrow> nat \<Rightarrow> nat \<Rightarrow> class_weights" where
  "computeNegWeight fNegRelativeWeight nNumPos nNumNeg =
     (let fNegWeightToMakeClassesBalance = real nNumPos / real nNumNeg;
          fNegativeScore = - fNegRelativeWeight * fNegWeightToMakeClassesBalance
      in \<lparr>w_neg = fNegativeScore, w_pos = 1\<rparr>)"

text \<open>The hardcoded flag of the destructor.\<close>

definition bUseBoosting :: bool where
  "bUseBoosting = False"

text \<open>
  The values that \<^verbatim>\<open>trainSVM\<close> writes through its reference parameters: the feature subset
  with its coefficients, the sign fix, the precision lookup, the sigmoid parameters and the
  summary text. (The engine model it trains goes to a file of its own.)
\<close>

type_synonym trained = "CFeatureSubsetSelecter \<times> real \<times> TPRLookup \<times> CSigmoidParams \<times> string"

text \<open>
  The destructor runs the training pipeline and persists the state; \<open>Inr None\<close> is the early
  return on insufficient data, with nothing written. \<^verbatim>\<open>trainSVM\<close> (the search over subsets and
  hyperparameters, through the engine, the job executor and the file system) is a
  parameter \<open>trainSVM\<close>: the destructor hands it the class weights, the coefficients, the
  examples and the summary so far, and takes what it writes. \<open>summary\<close> is the text written
  before the training.
\<close>

definition CSVMTraining_destructor ::
  "std_sort_t \<Rightarrow> (real list \<Rightarrow> real \<times> real)
     \<Rightarrow> (class_weights \<Rightarrow> CFeatureSubsetSelecter \<Rightarrow> labelled_features \<Rightarrow> string \<Rightarrow> error + trained)
     \<Rightarrow> real \<Rightarrow> string \<Rightarrow> labelled_features \<Rightarrow> error + state_file option" where
  "CSVMTraining_destructor std_sort meanSD trainSVM fNegRelativeWeight summary aaadFeatures =
     (if length (positives aaadFeatures) < 20 \<or> length (negatives aaadFeatures) < 20 then Inr None
      else
        bind_result
          (if bUseBoosting then findBoosterStates std_sort aaadFeatures else Inr ([], aaadFeatures))
          (\<lambda>(aBoosterStates, filtered).
            (let nNumPos = length (positives filtered);
                 nNumNeg = length (negatives filtered)
             in bind_result
                  (if nNumPos > 0 \<and> nNumNeg > 0
                   then bind_result
                          (findNormalisingCoeffs meanSD CFeatureSubsetSelecter_empty filtered)
                          (\<lambda>featureSubset.
                            trainSVM (computeNegWeight fNegRelativeWeight nNumPos nNumNeg)
                              featureSubset filtered summary)
                   else Inr (CFeatureSubsetSelecter_empty, 0, ([], []), CSigmoidParams_default,
                             summary))
                  (\<lambda>(featureSubset, dSignFix, PRLookup, sigmoidParams, details).
                    Inr (Some (CSavedSVMState_save aBoosterStates featureSubset dSignFix PRLookup
                                 sigmoidParams details))))))"

section \<open>Vocabulary of the statements about cross-validation and the training run\<close>













text \<open>
  A training run for the worked instances: 20 examples of each class, a stand-in for
  \<^verbatim>\<open>trainSVM\<close> that selects feature 0, and the state file the run writes.
\<close>

definition ex_training_set :: labelled_features where
  "ex_training_set = \<lparr>negatives = replicate 20 [0], positives = replicate 20 [1]\<rparr>"

definition ex_trainSVM ::
  "class_weights \<Rightarrow> CFeatureSubsetSelecter \<Rightarrow> labelled_features \<Rightarrow> string \<Rightarrow> error + trained" where
  "ex_trainSVM w featureSubset aaadFeatures summary =
     Inr (featureSubset\<lparr>anFeatureIdxSubset := [0]\<rparr>, 1, scenario_lookup, CSigmoidParams_default,
          summary)"

definition ex_trained_file :: state_file where
  "ex_trained_file =
     CSavedSVMState_save []
       \<lparr>anFeatureIdxSubset = [0], adNormalisingMean = [0], adNormalisingScale = [1]\<rparr>
       1 scenario_lookup CSigmoidParams_default []"

section \<open>Properties of the scoring functions\<close>

lemma total_scores_sums:
  "total_scores w rows (t, e) = (t + total_weight w rows, e + weighted_error w rows)"
  by (induction rows arbitrary: t e)
     (auto simp: total_weight_def weighted_error_def abs_weight_def Let_def)

lemma weighted_error_bounds:
  "0 \<le> weighted_error w rows \<and> weighted_error w rows \<le> total_weight w rows"
  by (induction rows) (auto simp: total_weight_def weighted_error_def abs_weight_def)

lemma class_counts_bounds:
  "\<exists>E N. class_counts b s rows (e, n) = (e + E, n + N) \<and> 0 \<le> E \<and> E \<le> N
     \<and> N = real (length (filter (\<lambda>r. svmClass (fst r) = b) rows))"
proof (induction rows arbitrary: e n)
  case Nil
  show ?case by simp
next
  case (Cons r rows)
  obtain l t where r: "r = (l, t)" by (cases r)
  show ?case
  proof (cases "svmClass l = b")
    case False
    with Cons[of e n] r show ?thesis by simp
  next
    case True
    let ?e' = "if svmClass l \<noteq> svmClass (s * t) then e + 1 else e"
    from Cons[of ?e' "n + 1"] obtain E N where
      h: "class_counts b s rows (?e', n + 1) = (?e' + E, n + 1 + N)" "0 \<le> E" "E \<le> N"
         "N = real (length (filter (\<lambda>r. svmClass (fst r) = b) rows))"
      by blast
    show ?thesis
    proof (cases "svmClass l \<noteq> svmClass (s * t)")
      case True
      with h \<open>svmClass l = b\<close> r show ?thesis
        by (intro exI[of _ "E + 1"] exI[of _ "N + 1"]) (auto simp: Let_def)
    next
      case False
      with h \<open>svmClass l = b\<close> r show ?thesis
        by (intro exI[of _ "E"] exI[of _ "N + 1"]) (auto simp: Let_def)
    qed
  qed
qed

lemma dClassSuccessRate_unit:
  assumes "\<exists>r\<in>set rows. svmClass (fst r) = b"
  shows "\<exists>q. dClassSuccessRate b s rows = Some q \<and> 0 \<le> q \<and> q \<le> 1"
proof -
  from class_counts_bounds[of b s rows 0 0] obtain E N where
    h: "class_counts b s rows (0, 0) = (E, N)" "0 \<le> E" "E \<le> N"
       "N = real (length (filter (\<lambda>r. svmClass (fst r) = b) rows))"
    by auto
  from assms have "filter (\<lambda>r. svmClass (fst r) = b) rows \<noteq> []"
    by (simp add: filter_empty_conv)
  with h(4) have "0 < N" by simp
  with h show ?thesis
    by (simp add: dClassSuccessRate_def fdiv_def divide_le_eq)
qed

lemma zip_fst_set: "length xs \<le> length ys \<Longrightarrow> fst ` set (zip xs ys) = set xs"
proof -
  assume "length xs \<le> length ys"
  then have "map fst (zip xs ys) = xs" by (simp add: map_fst_zip_take)
  then have "set (map fst (zip xs ys)) = set xs" by simp
  then show ?thesis by simp
qed

lemma total_weight_pos:
  assumes "w_neg w \<noteq> 0" "w_pos w \<noteq> 0" "rows \<noteq> []"
  shows "0 < total_weight w rows"
proof -
  have aw: "0 < abs_weight w x" for x
    using assms(1,2) by (simp add: abs_weight_def cvmGet_def)
  have "0 \<le> total_weight w rs" for rs
    by (induction rs) (auto simp: total_weight_def intro: add_nonneg_nonneg less_imp_le[OF aw])
  then show ?thesis
    using assms(3) aw by (cases rows) (auto simp: total_weight_def intro: add_pos_nonneg)
qed

text \<open>
  Claim C4, as the code has it. With \<open>tot\<close> the total weight of the validation rows and
  \<open>err\<close> the weight of the misclassified rows, \<^verbatim>\<open>computeTotalSuccessRate\<close> sets the sign
  correction to \<open>-1\<close> exactly when \<open>err\<close> is at least half of \<open>tot\<close> (a tie flips too) and
  to \<open>+1\<close> otherwise; the rate it returns is \<open>err / tot\<close> in the flipped case and
  \<open>(tot - err) / tot\<close> in the unflipped case.
\<close>

theorem computeTotalSuccessRate_sign_and_rate:
  assumes "length labels \<le> length test_labels"
  shows "computeTotalSuccessRate w labels test_labels =
     (let rows = zip labels test_labels;
          tot = total_weight w rows;
          err = weighted_error w rows
      in if tot / 2 \<le> err then Inr (fdiv err tot, - 1)
         else Inr (fdiv (tot - err) tot, 1))"
  using assms by (simp add: computeTotalSuccessRate_def total_scores_sums Let_def not_less)

theorem computeTotalSuccessRate_sign_and_rate_witness:
  "computeTotalSuccessRate \<lparr>w_neg = - 1, w_pos = 1\<rparr> [1, - 1, - 1, - 1] [1, 1, - 1, - 1]
     = Inr (Some (3 / 4), 1)
   \<and> computeTotalSuccessRate \<lparr>w_neg = - 1, w_pos = 1\<rparr> [1, - 1, - 1, - 1] [- 1, 1, 1, - 1]
     = Inr (Some (3 / 4), - 1)"
  using computeTotalSuccessRate_sign_and_rate
          [of "[1, - 1, - 1, - 1]" "[1, 1, - 1, - 1]" "\<lparr>w_neg = - 1, w_pos = 1\<rparr>"]
        computeTotalSuccessRate_sign_and_rate
          [of "[1, - 1, - 1, - 1]" "[- 1, 1, 1, - 1]" "\<lparr>w_neg = - 1, w_pos = 1\<rparr>"]
  by (simp add: total_weight_def weighted_error_def abs_weight_def cvmGet_def svmClass_def fdiv_def)

text \<open>
  Claim C4 as it is worded (flip exactly when the weighted error exceeds half of the total
  weight) fails at a tie: one positive and one negative row of weight 1 each, both scored
  positive. The weighted error is 1, exactly half of the total weight 2, and the sign is
  flipped.
\<close>

theorem sign_flip_at_half_counterexample:
  "computeTotalSuccessRate \<lparr>w_neg = - 1, w_pos = 1\<rparr> [1, - 1] [1, 1] = Inr (Some (1 / 2), - 1)
   \<and> \<not> (weighted_error \<lparr>w_neg = - 1, w_pos = 1\<rparr> (zip [1, - 1] [1, 1])
          > total_weight \<lparr>w_neg = - 1, w_pos = 1\<rparr> (zip [1, - 1] [1, 1]) / 2)"
  by (simp add: computeTotalSuccessRate_def total_weight_def weighted_error_def abs_weight_def
        cvmGet_def svmClass_def fdiv_def)

text \<open>
  Claim C5, as the code has it. With non-zero class weights, the total weighted success
  rate of a non-empty validation set is a number in the interval \<open>[0, 1]\<close>, and the
  balanced success rate (for any sign correction) of a validation set that holds at least
  one row of each class is a number in \<open>[0, 1]\<close>.
\<close>

theorem scoring_rates_in_unit_interval:
  assumes len: "length labels \<le> length test_labels"
    and wts: "w_neg w \<noteq> 0" "w_pos w \<noteq> 0"
  shows "(labels \<noteq> [] \<longrightarrow>
            (\<exists>r s. computeTotalSuccessRate w labels test_labels = Inr (Some r, s)
                \<and> 0 \<le> r \<and> r \<le> 1))
       \<and> ((\<exists>l\<in>set labels. svmClass l) \<and> (\<exists>l\<in>set labels. \<not> svmClass l) \<longrightarrow>
            (\<exists>b. computeBSR labels test_labels dSignCorrection = Inr (Some b)
                \<and> 0 \<le> b \<and> b \<le> 1))"
proof (intro conjI impI)
  let ?rows = "zip labels test_labels"
  assume "labels \<noteq> []"
  with len have "?rows \<noteq> []" by (cases labels; cases test_labels) auto
  then have tot: "0 < total_weight w ?rows"
    using wts by (simp add: total_weight_pos)
  note eb = weighted_error_bounds[of w ?rows]
  show "\<exists>r s. computeTotalSuccessRate w labels test_labels = Inr (Some r, s) \<and> 0 \<le> r \<and> r \<le> 1"
    using len tot eb
    by (simp add: computeTotalSuccessRate_def total_scores_sums fdiv_def)
next
  let ?rows = "zip labels test_labels"
  assume both: "(\<exists>l\<in>set labels. svmClass l) \<and> (\<exists>l\<in>set labels. \<not> svmClass l)"
  have fst_rows: "fst ` set ?rows = set labels"
    using len by (rule zip_fst_set)
  from both fst_rows have "\<exists>r\<in>set ?rows. svmClass (fst r) = True"
    by (metis (full_types) imageE)
  from dClassSuccessRate_unit[OF this, of dSignCorrection]
  obtain q1 where q1: "dClassSuccessRate True dSignCorrection ?rows = Some q1" "0 \<le> q1" "q1 \<le> 1"
    by blast
  from both fst_rows have "\<exists>r\<in>set ?rows. svmClass (fst r) = False"
    by (metis (full_types) imageE)
  from dClassSuccessRate_unit[OF this, of dSignCorrection]
  obtain q0 where q0: "dClassSuccessRate False dSignCorrection ?rows = Some q0" "0 \<le> q0" "q0 \<le> 1"
    by blast
  show "\<exists>b. computeBSR labels test_labels dSignCorrection = Inr (Some b) \<and> 0 \<le> b \<and> b \<le> 1"
    using len q0 q1 by (simp add: computeBSR_def fadd_def fscale_def)
qed

theorem scoring_rates_in_unit_interval_witness:
  "\<exists>r s b. computeTotalSuccessRate \<lparr>w_neg = - 2, w_pos = 1\<rparr> [1, - 1, 1] [1, 1, - 1] = Inr (Some r, s)
      \<and> 0 \<le> r \<and> r \<le> 1
      \<and> computeBSR [1, - 1, 1] [1, 1, - 1] s = Inr (Some b) \<and> 0 \<le> b \<and> b \<le> 1"
  using scoring_rates_in_unit_interval
          [of "[1, - 1, 1]" "[1, 1, - 1]" "\<lparr>w_neg = - 2, w_pos = 1\<rparr>"]
  by (simp add: svmClass_def)

text \<open>
  Claim C5 as it is worded (any validation set) fails on a set with one class only: the
  success rate of the absent class is the quotient \<open>0/0\<close>, and the balanced success rate
  is not a number. On the empty set the total weighted success rate is \<open>0/0\<close> as well.
\<close>

theorem single_class_BSR_counterexample:
  "computeBSR [1] [1] 1 = Inr None
   \<and> computeTotalSuccessRate \<lparr>w_neg = - 1, w_pos = 1\<rparr> [] [] = Inr (None, - 1)"
  by (simp add: computeBSR_def computeTotalSuccessRate_def dClassSuccessRate_def svmClass_def
        fdiv_def fadd_def fscale_def)

section \<open>Properties of the binary64 rounding\<close>

lemma pow2_powr: "pow2 e = 2 powr (of_int e)"
  by (simp add: pow2_def powr_int)

lemma pow2_pos [simp]: "0 < pow2 e"
  by (simp add: pow2_powr)

lemma pow2_nonneg [simp]: "0 \<le> pow2 e"
  by (simp add: pow2_powr)

lemma pow2_neq0 [simp]: "pow2 e \<noteq> 0"
  by (simp add: pow2_powr)

lemma pow2_mono: "i \<le> j \<Longrightarrow> pow2 i \<le> pow2 j"
  by (simp add: pow2_powr)

lemma pow2_add: "pow2 (i + j) = pow2 i * pow2 j"
  by (simp add: pow2_powr powr_add)

lemma pow2_nat: "pow2 (int n) = 2 ^ n"
  by (simp add: pow2_def)

lemma round_half_even_unfold:
  fixes q :: real
  defines "f \<equiv> \<lfloor>q\<rfloor>"
  defines "r \<equiv> q - of_int f"
  shows "0 \<le> r" "r < 1"
    "round_half_even q =
       (if r < 1 / 2 then f else if 1 / 2 < r then f + 1 else if even f then f else f + 1)"
proof -
  show "0 \<le> r" unfolding r_def f_def by linarith
  show "r < 1" unfolding r_def f_def by linarith
  show "round_half_even q =
       (if r < 1 / 2 then f else if 1 / 2 < r then f + 1 else if even f then f else f + 1)"
    unfolding round_half_even_def Let_def r_def f_def ..
qed

lemma round_half_even_cases:
  "round_half_even q = \<lfloor>q\<rfloor> \<or> round_half_even q = \<lfloor>q\<rfloor> + 1"
  unfolding round_half_even_def Let_def by presburger

lemma round_half_even_int [simp]: "round_half_even (of_int n) = n"
  by (simp add: round_half_even_def)

lemma round_half_even_0 [simp]: "round_half_even 0 = 0"
  by (simp add: round_half_even_def)

lemma round_half_even_err: "\<bar>of_int (round_half_even q) - q\<bar> \<le> 1 / 2"
proof -
  define f where "f = \<lfloor>q\<rfloor>"
  define r where "r = q - of_int f"
  note u = round_half_even_unfold[of q, folded f_def, folded r_def]
  have q: "q = of_int f + r" by (simp add: r_def)
  consider "r < 1 / 2" | "1 / 2 < r" | "r = 1 / 2" by linarith
  then show ?thesis
  proof cases
    case 1
    with u have "round_half_even q = f" by simp
    with 1 u(1) q show ?thesis by simp
  next
    case 2
    with u have "round_half_even q = f + 1" by simp
    with 2 u(2) q show ?thesis by simp
  next
    case 3
    with u have "round_half_even q = f \<or> round_half_even q = f + 1" by simp
    with 3 q show ?thesis by auto
  qed
qed

lemma round_half_even_mono:
  assumes "q \<le> q'"
  shows "round_half_even q \<le> round_half_even q'"
proof (cases "\<lfloor>q\<rfloor> = \<lfloor>q'\<rfloor>")
  case True
  define f where "f = \<lfloor>q\<rfloor>"
  define r where "r = q - of_int f"
  define r' where "r' = q' - of_int f"
  have f': "\<lfloor>q'\<rfloor> = f" using True by (simp add: f_def)
  note u = round_half_even_unfold(3)[of q, folded f_def, folded r_def]
  note u' = round_half_even_unfold(3)[of q', unfolded f', folded r'_def]
  have "r \<le> r'" using assms by (simp add: r_def r'_def)
  then show ?thesis unfolding u u' by auto
next
  case False
  with assms have "\<lfloor>q\<rfloor> < \<lfloor>q'\<rfloor>"
    by (simp add: floor_mono order.not_eq_order_implies_strict)
  moreover have "round_half_even q \<le> \<lfloor>q\<rfloor> + 1"
    using round_half_even_cases[of q] by auto
  moreover have "\<lfloor>q'\<rfloor> \<le> round_half_even q'"
    using round_half_even_cases[of q'] by auto
  ultimately show ?thesis by linarith
qed

lemma round_half_even_neg: "round_half_even (- q) = - round_half_even q"
proof (cases "q = of_int \<lfloor>q\<rfloor>")
  case True
  then obtain n where n: "q = of_int n" by blast
  then have "- q = of_int (- n)" by simp
  then have "round_half_even (- q) = - n" by (simp only: round_half_even_int)
  with n show ?thesis by simp
next
  case False
  define f where "f = \<lfloor>q\<rfloor>"
  define r where "r = q - of_int f"
  have r: "0 \<le> r" "r < 1" unfolding r_def f_def by linarith+
  have "r \<noteq> 0" using False by (simp add: r_def f_def)
  with r have rpos: "0 < r" by simp
  have "- q = of_int (- f - 1) + (1 - r)" by (simp add: r_def)
  moreover have "0 \<le> 1 - r" "1 - r < 1" using r rpos by simp_all
  ultimately have fl: "\<lfloor>- q\<rfloor> = - f - 1"
    by (metis floor_unique add.commute add_less_cancel_left le_add_same_cancel1)
  have r': "- q - of_int (- f - 1) = 1 - r" by (simp add: r_def)
  note u = round_half_even_unfold(3)[of q, folded f_def, folded r_def]
  note u' = round_half_even_unfold(3)[of "- q", unfolded fl r']
  show ?thesis unfolding u u' by auto
qed

lemma binade_from_spec:
  "j - int n \<le> binade_from n j a \<and> binade_from n j a \<le> j
   \<and> (pow2 (binade_from n j a) \<le> a \<or> binade_from n j a = j - int n)
   \<and> (\<forall>i. binade_from n j a < i \<and> i \<le> j \<longrightarrow> a < pow2 i)"
proof (induction n arbitrary: j)
  case 0
  show ?case by simp
next
  case (Suc n)
  show ?case
  proof (cases "pow2 j \<le> a")
    case True
    then show ?thesis by simp
  next
    case False
    let ?k = "binade_from n (j - 1) a"
    from Suc[of "j - 1"] have ih:
      "j - 1 - int n \<le> ?k" "?k \<le> j - 1" "pow2 ?k \<le> a \<or> ?k = j - 1 - int n"
      "\<And>i. ?k < i \<Longrightarrow> i \<le> j - 1 \<Longrightarrow> a < pow2 i"
      by blast+
    have "\<And>i. ?k < i \<Longrightarrow> i \<le> j \<Longrightarrow> a < pow2 i"
    proof -
      fix i assume "?k < i" "i \<le> j"
      then consider "i \<le> j - 1" | "i = j" by linarith
      then show "a < pow2 i"
        using ih(4)[of i] \<open>?k < i\<close> False by cases auto
    qed
    with ih False show ?thesis by auto
  qed
qed

lemma binade_range: "- 1022 \<le> binade a" "binade a \<le> 1023"
  using binade_from_spec[of 1023 2045 a] by (simp_all add: binade_def)

lemma binade_lower: "binade a \<noteq> - 1022 \<Longrightarrow> pow2 (binade a) \<le> a"
  using binade_from_spec[of 1023 2045 a] by (auto simp: binade_def)

lemma binade_upper: "binade a < 1023 \<Longrightarrow> a < pow2 (binade a + 1)"
  using binade_from_spec[of 1023 2045 a] by (auto simp: binade_def)

lemma binade_unique:
  assumes "- 1022 \<le> k" "k \<le> 1023"
    and lo: "pow2 k \<le> a \<or> k = - 1022"
    and hi: "a < pow2 (k + 1) \<or> k = 1023"
  shows "binade a = k"
proof (rule ccontr)
  assume ne: "binade a \<noteq> k"
  show False
  proof (cases "binade a < k")
    case True
    with binade_range[of a] have "k \<noteq> - 1022" "binade a < 1023" using assms(2) by linarith+
    with lo have "pow2 k \<le> a" by simp
    moreover from binade_upper[OF \<open>binade a < 1023\<close>] have "a < pow2 (binade a + 1)" .
    moreover from True have "pow2 (binade a + 1) \<le> pow2 k" by (intro pow2_mono) simp
    ultimately show False by linarith
  next
    case False
    with ne have gt: "k < binade a" by simp
    with binade_range[of a] assms(1) have "binade a \<noteq> - 1022" "k \<noteq> 1023" by linarith+
    with hi have "a < pow2 (k + 1)" by simp
    moreover from binade_lower[OF \<open>binade a \<noteq> - 1022\<close>] have "pow2 (binade a) \<le> a" .
    moreover from gt have "pow2 (k + 1) \<le> pow2 (binade a)" by (intro pow2_mono) simp
    ultimately show False by linarith
  qed
qed

lemma binade_mono:
  assumes "a \<le> b"
  shows "binade a \<le> binade b"
proof (rule ccontr)
  assume "\<not> binade a \<le> binade b"
  then have lt: "binade b < binade a" by simp
  with binade_range[of a] binade_range[of b]
  have "binade a \<noteq> - 1022" "binade b < 1023" by linarith+
  from binade_lower[OF this(1)] binade_upper[OF this(2)]
  have "pow2 (binade a) \<le> a" "b < pow2 (binade b + 1)" .
  moreover from lt have "pow2 (binade b + 1) \<le> pow2 (binade a)" by (intro pow2_mono) simp
  ultimately show False using assms by linarith
qed

lemma nearest_eval:
  assumes "- 1022 \<le> k" "k \<le> 1023"
    and "pow2 k \<le> \<bar>x\<bar> \<or> k = - 1022"
    and "\<bar>x\<bar> < pow2 (k + 1) \<or> k = 1023"
  shows "nearest x = of_int (round_half_even (x / pow2 (k - 52))) * pow2 (k - 52)"
  using binade_unique[OF assms] by (simp add: nearest_def Let_def)

lemma nearest_0 [simp]: "nearest 0 = 0"
  by (simp add: nearest_def round_half_even_def)

lemma nearest_neg: "nearest (- x) = - nearest x"
  by (simp add: nearest_def Let_def round_half_even_neg)

lemma nearest_nonneg:
  assumes "0 \<le> x"
  shows "0 \<le> nearest x"
proof -
  let ?e = "binade \<bar>x\<bar> - 52"
  from assms have "of_int 0 \<le> x / pow2 ?e" by simp
  from round_half_even_mono[OF this] have "0 \<le> round_half_even (x / pow2 ?e)" by simp
  then show ?thesis by (simp add: nearest_def Let_def)
qed

lemma nearest_binade_lower:
  assumes "0 \<le> a" "pow2 (binade a) \<le> a"
  shows "pow2 (binade a) \<le> nearest a"
proof -
  let ?k = "binade a"
  let ?e = "?k - 52"
  have split: "pow2 ?k = pow2 52 * pow2 ?e"
    using pow2_add[of 52 ?e] by simp
  have p52: "pow2 52 = of_int (2 ^ 52)" by (simp add: pow2_def)
  from assms(2) have "pow2 52 * pow2 ?e \<le> a" by (simp add: split)
  then have "pow2 52 \<le> a / pow2 ?e" by (simp add: pos_le_divide_eq)
  then have "of_int (2 ^ 52) \<le> a / pow2 ?e" by (simp only: p52)
  from round_half_even_mono[OF this]
  have "(2 ^ 52 :: int) \<le> round_half_even (a / pow2 ?e)" by (simp only: round_half_even_int)
  then have "of_int (2 ^ 52) \<le> (of_int (round_half_even (a / pow2 ?e)) :: real)"
    by (simp only: of_int_le_iff)
  then have "of_int (2 ^ 52) * pow2 ?e \<le> of_int (round_half_even (a / pow2 ?e)) * pow2 ?e"
    by (intro mult_right_mono) simp_all
  with assms(1) show ?thesis by (simp add: nearest_def Let_def split p52)
qed

lemma nearest_binade_upper:
  assumes "0 \<le> a" "a < pow2 (binade a + 1)"
  shows "nearest a \<le> pow2 (binade a + 1)"
proof -
  let ?k = "binade a"
  let ?e = "?k - 52"
  have split: "pow2 (?k + 1) = pow2 53 * pow2 ?e"
    using pow2_add[of 53 ?e] by (simp add: add.commute)
  have p53: "pow2 53 = of_int (2 ^ 53)" by (simp add: pow2_def)
  from assms(2) have "a \<le> pow2 53 * pow2 ?e" by (simp add: split)
  then have "a / pow2 ?e \<le> pow2 53" by (simp add: pos_divide_le_eq)
  then have "a / pow2 ?e \<le> of_int (2 ^ 53)" by (simp only: p53)
  from round_half_even_mono[OF this]
  have "round_half_even (a / pow2 ?e) \<le> (2 ^ 53 :: int)" by (simp only: round_half_even_int)
  then have "(of_int (round_half_even (a / pow2 ?e)) :: real) \<le> of_int (2 ^ 53)"
    by (simp only: of_int_le_iff)
  then have "of_int (round_half_even (a / pow2 ?e)) * pow2 ?e \<le> of_int (2 ^ 53) * pow2 ?e"
    by (intro mult_right_mono) simp_all
  with assms(1) show ?thesis by (simp add: nearest_def Let_def split p53)
qed

lemma nearest_mono_nonneg:
  assumes "0 \<le> a" "a \<le> b"
  shows "nearest a \<le> nearest b"
proof (cases "binade a = binade b")
  case True
  let ?e = "binade a - 52"
  from assms have "a / pow2 ?e \<le> b / pow2 ?e" by (simp add: divide_right_mono)
  from round_half_even_mono[OF this]
  have "(of_int (round_half_even (a / pow2 ?e)) :: real) \<le> of_int (round_half_even (b / pow2 ?e))"
    by simp
  then have "of_int (round_half_even (a / pow2 ?e)) * pow2 ?e
           \<le> of_int (round_half_even (b / pow2 ?e)) * pow2 ?e"
    by (intro mult_right_mono) simp_all
  with assms True show ?thesis by (simp add: nearest_def Let_def)
next
  case False
  with binade_mono[OF assms(2)] have lt: "binade a < binade b" by simp
  with binade_range[of a] binade_range[of b]
  have "binade a < 1023" "binade b \<noteq> - 1022" by linarith+
  from binade_upper[OF this(1)] binade_lower[OF this(2)]
  have "a < pow2 (binade a + 1)" "pow2 (binade b) \<le> b" .
  from nearest_binade_upper[OF assms(1) this(1)] nearest_binade_lower[OF _ this(2)] assms
  have "nearest a \<le> pow2 (binade a + 1)" "pow2 (binade b) \<le> nearest b" by simp_all
  moreover from lt have "pow2 (binade a + 1) \<le> pow2 (binade b)" by (intro pow2_mono) simp
  ultimately show ?thesis by linarith
qed

lemma nearest_mono:
  assumes "x \<le> y"
  shows "nearest x \<le> nearest y"
proof -
  consider "0 \<le> x" | "y \<le> 0" | "x < 0" "0 < y" by linarith
  then show ?thesis
  proof cases
    case 1
    with assms show ?thesis by (intro nearest_mono_nonneg)
  next
    case 2
    with assms have "0 \<le> - y" "- y \<le> - x" by simp_all
    from nearest_mono_nonneg[OF this] show ?thesis by (simp add: nearest_neg)
  next
    case 3
    then have "0 \<le> nearest (- x)" "0 \<le> nearest y" by (simp_all add: nearest_nonneg)
    then show ?thesis by (simp add: nearest_neg)
  qed
qed

lemma nearest_pow2:
  assumes "- 1022 \<le> j" "j \<le> 1023"
  shows "nearest (pow2 j) = pow2 j"
proof -
  have lt: "pow2 j < pow2 (j + 1)" by (simp add: pow2_powr)
  have split: "pow2 j = pow2 52 * pow2 (j - 52)"
    using pow2_add[of 52 "j - 52"] by simp
  have p52: "pow2 52 = of_int (2 ^ 52)" by (simp add: pow2_def)
  have q: "pow2 j / pow2 (j - 52) = of_int (2 ^ 52)"
    by (simp add: split p52)
  have "nearest (pow2 j)
      = of_int (round_half_even (pow2 j / pow2 (j - 52))) * pow2 (j - 52)"
    using assms lt by (intro nearest_eval) simp_all
  also have "\<dots> = of_int (2 ^ 52) * pow2 (j - 52)"
    by (simp only: q round_half_even_int)
  also have "\<dots> = pow2 j"
    by (simp only: split p52)
  finally show ?thesis .
qed

lemma nearest_idem_nonneg:
  assumes "0 \<le> x"
  shows "nearest (nearest x) = nearest x"
proof -
  let ?k = "binade x"
  let ?e = "?k - 52"
  let ?n = "round_half_even (x / pow2 ?e)"
  let ?r = "nearest x"
  have r: "?r = of_int ?n * pow2 ?e" using assms by (simp add: nearest_def Let_def)
  have r0: "0 \<le> ?r" using assms by (rule nearest_nonneg)
  have same: "binade ?r = ?k \<Longrightarrow> nearest ?r = ?r"
  proof -
    assume b: "binade ?r = ?k"
    have q: "?r / pow2 ?e = of_int ?n" by (simp add: r)
    have a: "\<bar>?r\<bar> = ?r" using r0 by simp
    show "nearest ?r = ?r"
      apply (subst nearest_def[of "nearest x"])
      apply (simp only: Let_def a b q round_half_even_int)
      apply (rule r[symmetric])
      done
  qed
  show ?thesis
  proof (cases "?k = - 1022 \<or> pow2 ?k \<le> x")
    case True
    have low: "pow2 ?k \<le> ?r \<or> ?k = - 1022"
      using True nearest_binade_lower[OF assms] by auto
    show ?thesis
    proof (cases "?k = 1023")
      case k: True
      from binade_unique[of ?k ?r] low k have "binade ?r = ?k" by simp
      then show ?thesis by (rule same)
    next
      case k: False
      with binade_range[of x] have "?k < 1023" by simp
      from binade_upper[OF this] have "x < pow2 (?k + 1)" .
      from nearest_binade_upper[OF assms this] have up: "?r \<le> pow2 (?k + 1)" .
      show ?thesis
      proof (cases "?r = pow2 (?k + 1)")
        case True
        with \<open>?k < 1023\<close> binade_range[of x] show ?thesis
          by (simp add: nearest_pow2)
      next
        case False
        with up have "?r < pow2 (?k + 1)" by simp
        with low binade_range[of x] have "binade ?r = ?k"
          by (intro binade_unique) simp_all
        then show ?thesis by (rule same)
      qed
    qed
  next
    case False
    with binade_lower[of x] show ?thesis by blast
  qed
qed

lemma nearest_idem: "nearest (nearest x) = nearest x"
proof (cases "0 \<le> x")
  case True
  then show ?thesis by (rule nearest_idem_nonneg)
next
  case False
  then have "0 \<le> - x" by simp
  from nearest_idem_nonneg[OF this] show ?thesis by (simp add: nearest_neg)
qed

lemma nearest_err_unit:
  assumes "0 \<le> x" "x < 1"
  shows "\<bar>nearest x - x\<bar> \<le> 1 / 2 ^ 54"
proof -
  let ?k = "binade x"
  let ?e = "?k - 52"
  let ?q = "x / pow2 ?e"
  have "?k \<le> - 1"
  proof (rule ccontr)
    assume "\<not> ?k \<le> - 1"
    then have k0: "0 \<le> ?k" by simp
    then have "?k \<noteq> - 1022" by simp
    from binade_lower[OF this] have "pow2 ?k \<le> x" .
    moreover from k0 have "pow2 0 \<le> pow2 ?k" by (rule pow2_mono)
    ultimately show False using assms(2) by (simp add: pow2_def)
  qed
  then have "pow2 ?e \<le> pow2 (- 53)" by (intro pow2_mono) simp
  then have e: "pow2 ?e \<le> 1 / 2 ^ 53" by (simp add: pow2_def)
  have "nearest x - x = (of_int (round_half_even ?q) - ?q) * pow2 ?e"
    using assms(1) by (simp add: nearest_def Let_def algebra_simps)
  then have "\<bar>nearest x - x\<bar> = \<bar>of_int (round_half_even ?q) - ?q\<bar> * pow2 ?e"
    by (simp add: abs_mult)
  also have "\<dots> \<le> (1 / 2) * pow2 ?e"
    by (intro mult_right_mono round_half_even_err) simp
  also have "\<dots> \<le> (1 / 2) * (1 / 2 ^ 53)"
    using e by simp
  finally show ?thesis by simp
qed


lemma nearest_err_unit_upper:
  assumes "0 \<le> x" "x < 1"
  shows "nearest x \<le> x + 1 / 2 ^ 54"
proof -
  have "nearest x - x \<le> \<bar>nearest x - x\<bar>" by simp
  also note nearest_err_unit[OF assms]
  finally show ?thesis by linarith
qed

lemma nearest_1 [simp]: "nearest 1 = 1"
  using nearest_pow2[of 0] by (simp add: pow2_def)

lemma nearest_2 [simp]: "nearest 2 = 2"
  using nearest_pow2[of 1] by (simp add: pow2_def)

lemma round_half_even_tie:
  "round_half_even (of_int n + 1 / 2) = (if even n then n else n + 1)"
proof -
  have "\<lfloor>of_int n + (1 / 2 :: real)\<rfloor> = n" by linarith
  then show ?thesis by (simp add: round_half_even_def Let_def)
qed

lemma nearest_above_1:
  assumes "1 \<le> x" "x \<le> 1 + 1 / 2 ^ 53"
  shows "nearest x = 1"
proof -
  have "nearest (1 + 1 / 2 ^ 53) = of_int (round_half_even ((1 + 1 / 2 ^ 53) / pow2 (0 - 52))) * pow2 (0 - 52)"
    by (intro nearest_eval) (simp_all add: pow2_def)
  also have "(1 + 1 / 2 ^ 53) / pow2 (0 - 52) = of_int (2 ^ 52) + 1 / 2"
    by (simp add: pow2_def)
  also have "round_half_even (of_int (2 ^ 52) + 1 / 2) = 2 ^ 52"
    by (simp only: round_half_even_tie) simp
  finally have top: "nearest (1 + 1 / 2 ^ 53) = 1" by (simp add: pow2_def)
  from nearest_mono[OF assms(1)] nearest_mono[OF assms(2)] top show ?thesis by simp
qed

lemma round_to_double_small:
  assumes "- 2 \<le> x" "x \<le> 2"
  shows "round_to_double x = Finite (nearest x)"
proof -
  from nearest_mono[OF assms(2)] have "nearest x \<le> 2" by simp
  moreover from nearest_mono[OF assms(1)] have "- 2 \<le> nearest x" by (simp add: nearest_neg)
  moreover have "(2::real) < 2 ^ 1024" by simp
  ultimately show ?thesis by (simp add: round_to_double_def Let_def)
qed

lemma round_to_double_nonneg:
  assumes "0 \<le> x"
  shows "round_to_double x = PlusInf \<or> round_to_double x = Finite (nearest x)"
proof -
  from nearest_nonneg[OF assms] have "\<not> nearest x \<le> - (2 ^ 1024)" by simp
  then show ?thesis by (simp add: round_to_double_def Let_def)
qed

lemma round_to_double_not_NaN [simp]: "round_to_double x \<noteq> NaN"
  by (simp add: round_to_double_def Let_def)

section \<open>Properties of the runtime classifier\<close>

lemma keepPotentialCandidate_all:
  "cascade_readable aFilters pFeature \<Longrightarrow>
   keepPotentialCandidate aFilters pFeature = Inr (list_all (stage_keeps pFeature) aFilters)"
  by (induction aFilters)
     (auto simp: cascade_readable_def stage_keeps_def keepPotentialCandidate_feature_def
        feature_value_def bind_result_def)

lemma selectAndNormalise_loop_map:
  "list_all (\<lambda>i. 0 \<le> i \<and> i < int (dimension pFeature)
                  \<and> i < int (length (adNormalisingMean sel))
                  \<and> i < int (length (adNormalisingScale sel))) idxs \<Longrightarrow>
   selectAndNormalise_loop sel pFeature idxs =
     Inr (map (\<lambda>i. adNormalisingScale sel ! nat i * (value_int pFeature i - adNormalisingMean sel ! nat i)) idxs)"
  by (induction idxs) (auto simp: vec_at_def feature_value_def bind_result_def)

lemma selectAndNormalise_normalised:
  "subset_readable sel pFeature \<Longrightarrow>
   selectAndNormalise sel pFeature = Inr (normalised_subset sel pFeature)"
  by (simp add: subset_readable_def selectAndNormalise_def normalised_subset_def
        selectAndNormalise_loop_map)

text \<open>
  Claim C1. For a feature on which the cascade's indices can be read: when some booster
  stage rejects the feature, \<^verbatim>\<open>classify\<close> returns \<open>-1\<close> and the engine is not called;
  otherwise, when the sign correction is 0, it returns \<open>1\<close> and the engine is not called;
  otherwise (the subset's indices being readable and the engine answering \<open>raw\<close> on the
  normalised projection) it returns the sign correction times \<open>raw\<close> minus the
  classification boundary, after exactly one engine call, on the normalised projection.
\<close>

theorem classify_three_cases:
  assumes "cascade_readable (boostedFilters c) pFeature"
  shows "((\<exists>s\<in>set (boostedFilters c). \<not> stage_keeps pFeature s) \<longrightarrow>
            classify c pFeature = Inr (- 1, []))
       \<and> ((\<forall>s\<in>set (boostedFilters c). stage_keeps pFeature s)
              \<and> getSignCorrection (savedState c) = 0 \<longrightarrow>
            classify c pFeature = Inr (1, []))
       \<and> (\<forall>raw. (\<forall>s\<in>set (boostedFilters c). stage_keeps pFeature s)
              \<and> getSignCorrection (savedState c) \<noteq> 0
              \<and> subset_readable (featureSubsetSelecter c) pFeature
              \<and> svm_predict c (normalised_subset (featureSubsetSelecter c) pFeature) = Some raw \<longrightarrow>
            classify c pFeature =
              Inr (getSignCorrection (savedState c) * (raw - getClassificationBoundary (savedState c)),
                   [normalised_subset (featureSubsetSelecter c) pFeature]))"
  using assms
  by (simp add: classify_def keepPotentialCandidate_all selectAndNormalise_normalised
        bind_result_def list_all_iff)

theorem classify_three_cases_witness:
  "classify (ex_classifier (- 1) CSigmoidParams_default) (ex_feature 0 3) = Inr (- 1, [])
   \<and> classify (ex_classifier 0 CSigmoidParams_default) (ex_feature 2 3) = Inr (1, [])
   \<and> classify (ex_classifier (- 1) CSigmoidParams_default) (ex_feature 2 3) = Inr (- 7 / 2, [[4]])"
  using classify_three_cases [of "ex_classifier (- 1) CSigmoidParams_default" "ex_feature 0 3"]
        classify_three_cases [of "ex_classifier 0 CSigmoidParams_default" "ex_feature 2 3"]
        classify_three_cases [of "ex_classifier (- 1) CSigmoidParams_default" "ex_feature 2 3"]
  by (simp add: ex_classifier_def ex_feature_def ex_stage_def ex_selecter_def
        cascade_readable_def subset_readable_def stage_keeps_def normalised_subset_def
        keepPotentialCandidate_val_def)

lemma validate_iff: "validate p = Inr () \<longleftrightarrow> sigmoid_valid p"
  by (auto simp: validate_def sigmoid_valid_def CHECKPROBABILITY_def CHECK_def bind_result_def)

lemma validate_fails: "\<not> sigmoid_valid p \<Longrightarrow> \<exists>msg. validate p = Inl (Check msg)"
  by (auto simp: validate_def sigmoid_valid_def CHECKPROBABILITY_def CHECK_def bind_result_def)

lemma exp_rounded_sane: "exp_sane exp_rounded"
proof -
  have "case exp_rounded x of Finite e \<Rightarrow> 0 \<le> e | PlusInf \<Rightarrow> True
          | MinusInf \<Rightarrow> False | NaN \<Rightarrow> False" for x
    using round_to_double_nonneg[of "exp x"] nearest_nonneg[of "exp x"]
    by (auto simp: exp_rounded_def)
  then show ?thesis by (simp add: exp_sane_def)
qed

lemma logisticSigmoid_unit:
  assumes sane: "exp_sane libm_exp" and x: "x \<noteq> NaN"
  shows "\<exists>s. logisticSigmoid libm_exp x = Finite s \<and> 0 \<le> s \<and> s \<le> 1"
proof -
  let ?e = "d_exp libm_exp (d_neg x)"
  have e: "?e = PlusInf \<or> (\<exists>e. ?e = Finite e \<and> 0 \<le> e)"
  proof (cases x)
    case (Finite v)
    from sane have "case libm_exp (- v) of Finite e \<Rightarrow> 0 \<le> e | PlusInf \<Rightarrow> True
          | MinusInf \<Rightarrow> False | NaN \<Rightarrow> False"
      by (simp add: exp_sane_def)
    with Finite show ?thesis by (cases "libm_exp (- v)") simp_all
  qed (use x in simp_all)
  let ?d = "d_add (Finite 1) ?e"
  have d: "?d = PlusInf \<or> (\<exists>d. ?d = Finite d \<and> 1 \<le> d)"
  proof -
    from e consider "?e = PlusInf" | e where "?e = Finite e" "0 \<le> e" by blast
    then show ?thesis
    proof cases
      case 1
      then show ?thesis by simp
    next
      case 2
      from 2(2) have "nearest 1 \<le> nearest (1 + e)" by (intro nearest_mono) simp
      moreover from 2(2) have "0 \<le> 1 + e" by simp
      note round_to_double_nonneg[OF this]
      ultimately show ?thesis using 2(1) by auto
    qed
  qed
  from d consider "?d = PlusInf" | d where "?d = Finite d" "1 \<le> d" by blast
  then show ?thesis
  proof cases
    case 1
    then show ?thesis by (simp add: logisticSigmoid_def)
  next
    case 2
    from 2(2) have q: "0 \<le> 1 / d" "1 / d \<le> 1" by simp_all
    then have "- 2 \<le> 1 / d" "1 / d \<le> 2" by linarith+
    then have "round_to_double (1 / d) = Finite (nearest (1 / d))"
      by (rule round_to_double_small)
    moreover from q have "0 \<le> nearest (1 / d)" by (intro nearest_nonneg)
    moreover from nearest_mono[OF q(2)] have "nearest (1 / d) \<le> 1" by simp
    ultimately show ?thesis using 2 by (simp add: logisticSigmoid_def)
  qed
qed

lemma sigmoid_argument_not_NaN:
  assumes "0 < scale"
  shows "d_mul (Finite scale) (d_sub (Finite a) (Finite b)) \<noteq> NaN"
proof -
  have "d_sub (Finite a) (Finite b) = round_to_double (a - b)"
    by (simp add: d_sub_def)
  then show ?thesis using assms
    by (cases "round_to_double (a - b)") (simp_all add: infinity_of_sign_def)
qed

lemma prob_bounds:
  assumes sane: "exp_sane libm_exp" and valid: "sigmoid_valid p"
  shows "\<exists>q. prob libm_exp p score = Finite q \<and> 0 \<le> q \<and> q \<le> 1
            \<and> q \<le> dThreshHi p + 1 / 2 ^ 53
            \<and> (is_double (dThreshLo p) \<longrightarrow> dThreshLo p \<le> q)"
proof -
  let ?lo = "dThreshLo p" and ?hi = "dThreshHi p"
  from valid have v: "0 \<le> ?lo" "?lo < ?hi" "?hi \<le> 1" "0 < dScale p"
    by (simp_all add: sigmoid_valid_def)
  let ?x = "d_mul (Finite (dScale p)) (d_sub (Finite score) (Finite (dShift p)))"
  from logisticSigmoid_unit[OF sane sigmoid_argument_not_NaN[OF v(4)]]
  obtain s where s: "logisticSigmoid libm_exp ?x = Finite s" "0 \<le> s" "s \<le> 1" by blast
  define w where "w = nearest (?hi - ?lo)"
  have z: "0 \<le> ?hi - ?lo" "?hi - ?lo \<le> 1" using v by simp_all
  have dw: "d_sub (Finite ?hi) (Finite ?lo) = Finite w"
    using z by (simp add: d_sub_def w_def round_to_double_small)
  have w0: "0 \<le> w" unfolding w_def using z(1) by (rule nearest_nonneg)
  have w1: "w \<le> 1" unfolding w_def using nearest_mono[OF z(2)] by simp
  have ww: "nearest w = w" unfolding w_def by (rule nearest_idem)
  have werr: "w \<le> ?hi - ?lo + 1 / 2 ^ 54"
  proof (cases "?hi - ?lo < 1")
    case True
    from nearest_err_unit_upper[OF z(1) this] show ?thesis by (simp only: w_def)
  next
    case False
    with z have "?hi - ?lo = 1" by simp
    then show ?thesis by (simp add: w_def)
  qed
  define m where "m = nearest (w * s)"
  have ws: "0 \<le> w * s" "w * s \<le> w" using w0 s by (simp_all add: mult_left_le)
  have dm: "d_mul (Finite w) (Finite s) = Finite m"
    using ws w1 by (simp add: m_def round_to_double_small)
  have m0: "0 \<le> m" unfolding m_def using ws(1) by (rule nearest_nonneg)
  have mw: "m \<le> w" unfolding m_def using nearest_mono[OF ws(2)] by (simp add: ww)
  define q where "q = nearest (?lo + m)"
  have sum: "?lo \<le> ?lo + m" "?lo + m \<le> ?hi + 1 / 2 ^ 54" "0 \<le> ?lo + m"
    using m0 mw werr v by simp_all
  have sum1: "?lo + m \<le> 1 + 1 / 2 ^ 53"
  proof -
    have "(1 / 2 ^ 54 :: real) \<le> 1 / 2 ^ 53" by simp
    with sum(2) v(3) show ?thesis by linarith
  qed
  have dq: "d_add (Finite ?lo) (Finite m) = Finite q"
    using sum sum1 by (simp add: q_def round_to_double_small)
  have q0: "0 \<le> q" unfolding q_def using sum(3) by (rule nearest_nonneg)
  have q1: "q \<le> 1"
  proof (cases "?lo + m \<le> 1")
    case True
    from nearest_mono[OF this] show ?thesis by (simp add: q_def)
  next
    case False
    then have "1 \<le> ?lo + m" by simp
    from nearest_above_1[OF this sum1] show ?thesis by (simp add: q_def)
  qed
  have qhi: "q \<le> ?hi + 1 / 2 ^ 53"
  proof (cases "?lo + m < 1")
    case True
    from nearest_err_unit_upper[OF sum(3) this] have "q \<le> ?lo + m + 1 / 2 ^ 54"
      by (simp only: q_def)
    moreover have "(1 / 2 ^ 54 :: real) + 1 / 2 ^ 54 = 1 / 2 ^ 53" by simp
    ultimately show ?thesis using sum(2) by linarith
  next
    case False
    then have "1 \<le> ?lo + m" by simp
    with q1 sum(2) show ?thesis by simp
  qed
  have qlo: "is_double ?lo \<longrightarrow> ?lo \<le> q"
  proof
    assume "is_double ?lo"
    moreover from v have "- 2 \<le> ?lo" "?lo \<le> 2" by simp_all
    ultimately have "nearest ?lo = ?lo"
      by (simp add: is_double_def round_to_double_small)
    with nearest_mono[OF sum(1)] show "?lo \<le> q" by (simp add: q_def)
  qed
  have "prob libm_exp p score = Finite q"
    by (simp only: prob_def dw s(1) dm dq)
  with q0 q1 qhi qlo show ?thesis by blast
qed

lemma round_to_double_pow2:
  assumes "- 1022 \<le> j" "j \<le> 1023"
  shows "round_to_double (pow2 j) = Finite (pow2 j)"
proof -
  have "pow2 j \<le> pow2 1023" using assms(2) by (rule pow2_mono)
  also have "pow2 1023 < 2 ^ 1024" by (simp add: pow2_def)
  finally have "pow2 j < 2 ^ 1024" .
  moreover have "\<not> pow2 j \<le> - (2 ^ 1024)"
    using pow2_pos[of j] by (simp add: not_le less_trans[of _ 0])
  ultimately show ?thesis
    by (simp add: round_to_double_def Let_def nearest_pow2[OF assms] not_le)
qed

lemma round_to_double_values:
  "round_to_double 1 = Finite 1"
  "round_to_double 2 = Finite 2"
  "round_to_double 64 = Finite 64"
  "round_to_double (1 / 2) = Finite (1 / 2)"
  "round_to_double (1 / 4) = Finite (1 / 4)"
  using round_to_double_pow2[of 0] round_to_double_pow2[of 1] round_to_double_pow2[of 6]
    round_to_double_pow2[of "- 1"] round_to_double_pow2[of "- 2"]
  by (simp_all add: pow2_def)

lemma round_to_double_0 [simp]: "round_to_double 0 = Finite 0"
  by (simp add: round_to_double_def)

lemma logisticSigmoid_saturates:
  assumes "libm_exp (- u) = Finite e" "0 \<le> e" "e \<le> 1 / 2 ^ 53"
  shows "logisticSigmoid libm_exp (Finite u) = Finite 1"
proof -
  have "1 \<le> 1 + e" "1 + e \<le> 1 + 1 / 2 ^ 53" using assms by simp_all
  from nearest_above_1[OF this] have n: "nearest (1 + e) = 1" .
  have "(1 / 2 ^ 53 :: real) \<le> 1" by simp
  with assms have "- 2 \<le> 1 + e" "1 + e \<le> 2" by linarith+
  from round_to_double_small[OF this] n have "round_to_double (1 + e) = Finite 1" by simp
  with assms(1) show ?thesis
    by (simp add: logisticSigmoid_def round_to_double_values)
qed

lemma exp_rounded_minus_64:
  "\<exists>e. exp_rounded (- 64) = Finite e \<and> 0 \<le> e \<and> e \<le> 1 / 2 ^ 53"
proof -
  have "(2::real) \<le> exp 1" using exp_ge_add_one_self[of 1] by simp
  then have "(2::real) ^ 64 \<le> exp 1 ^ 64" by (intro power_mono) simp_all
  also have "exp 1 ^ 64 = exp (64::real)"
    using exp_of_nat_mult[of 64 "1::real"] by simp
  finally have "1 / exp (64::real) \<le> 1 / 2 ^ 64"
    by (intro divide_left_mono) simp_all
  then have small: "exp (- 64 :: real) \<le> 1 / 2 ^ 64" by (simp add: exp_minus inverse_eq_divide)
  have pos: "0 \<le> exp (- 64 :: real)" by simp
  have "(1 / 2 ^ 64 :: real) \<le> 2" by simp
  with small pos have "- 2 \<le> exp (- 64 :: real)" "exp (- 64 :: real) \<le> 2" by linarith+
  from round_to_double_small[OF this]
  have r: "exp_rounded (- 64) = Finite (nearest (exp (- 64)))" by (simp add: exp_rounded_def)
  have "nearest (exp (- 64)) \<le> nearest (pow2 (- 64))"
    using small by (intro nearest_mono) (simp add: pow2_def)
  also have "nearest (pow2 (- 64)) = pow2 (- 64)" by (intro nearest_pow2) simp_all
  also have "pow2 (- 64) \<le> 1 / 2 ^ 53" by (simp add: pow2_def)
  finally have "nearest (exp (- 64)) \<le> 1 / 2 ^ 53" .
  with r nearest_nonneg[OF pos] show ?thesis by simp
qed

lemma nearest_half_binade:
  assumes "1 / 2 \<le> x" "x < 1"
  shows "nearest x = of_int (round_half_even (x * 2 ^ 53)) / 2 ^ 53"
proof -
  have "nearest x = of_int (round_half_even (x / pow2 (- 1 - 52))) * pow2 (- 1 - 52)"
    using assms by (intro nearest_eval) (simp_all add: pow2_def)
  then show ?thesis by (simp add: pow2_def)
qed

lemma threshold_difference:
  "round_to_double (double_0_9 - double_0_3) = Finite (5404319552844596 / 2 ^ 53)"
proof -
  let ?z = "double_0_9 - double_0_3"
  have z: "1 / 2 \<le> ?z" "?z < 1" by (simp_all add: double_0_9_def double_0_3_def)
  have "?z * 2 ^ 53 = of_int 5404319552844595 + 1 / 2"
    by (simp add: double_0_9_def double_0_3_def)
  then have "round_half_even (?z * 2 ^ 53) = 5404319552844596"
    by (simp only: round_half_even_tie) simp
  with nearest_half_binade[OF z] have "nearest ?z = 5404319552844596 / 2 ^ 53" by simp
  moreover from z have "- 2 \<le> ?z" "?z \<le> 2" by linarith+
  note round_to_double_small[OF this]
  ultimately show ?thesis by simp
qed

lemma threshold_sum:
  "round_to_double (double_0_3 + 5404319552844596 / 2 ^ 53) = Finite (8106479329266894 / 2 ^ 53)"
proof -
  let ?z = "double_0_3 + 5404319552844596 / 2 ^ 53"
  have z: "1 / 2 \<le> ?z" "?z < 1" by (simp_all add: double_0_3_def)
  have "?z * 2 ^ 53 = of_int 8106479329266893 + 1 / 2"
    by (simp add: double_0_3_def)
  then have "round_half_even (?z * 2 ^ 53) = 8106479329266894"
    by (simp only: round_half_even_tie) simp
  with nearest_half_binade[OF z] have "nearest ?z = 8106479329266894 / 2 ^ 53" by simp
  moreover from z have "- 2 \<le> ?z" "?z \<le> 2" by linarith+
  note round_to_double_small[OF this]
  ultimately show ?thesis by simp
qed

lemma threshold_difference_exact:
  "round_to_double (5404319552844596 / 2 ^ 53 * 1) = Finite (5404319552844596 / 2 ^ 53)"
proof -
  let ?z = "5404319552844596 / 2 ^ 53 :: real"
  have z: "1 / 2 \<le> ?z" "?z < 1" by simp_all
  have "?z * 2 ^ 53 = of_int 5404319552844596" by simp
  then have "round_half_even (?z * 2 ^ 53) = 5404319552844596"
    by (simp only: round_half_even_int)
  with nearest_half_binade[OF z] have "nearest ?z = ?z" by simp
  moreover from z have "- 2 \<le> ?z" "?z \<le> 2" by linarith+
  note round_to_double_small[OF this]
  ultimately show ?thesis by simp
qed

lemma prob_overshoots:
  "prob exp_rounded
     \<lparr>dThreshLo = double_0_3, dThreshHi = double_0_9, dShift = 0, dScale = 64\<rparr> 1
   = Finite (8106479329266894 / 2 ^ 53)"
proof -
  from exp_rounded_minus_64 obtain e where
    "exp_rounded (- 64) = Finite e" "0 \<le> e" "e \<le> 1 / 2 ^ 53" by blast
  from logisticSigmoid_saturates[of exp_rounded 64 e, OF this]
  have s: "logisticSigmoid exp_rounded (Finite 64) = Finite 1" .
  show ?thesis
    using threshold_difference threshold_difference_exact threshold_sum
    by (simp add: prob_def d_sub_def round_to_double_values s)
qed

lemma double_0_3_is_double: "is_double double_0_3"
proof -
  have "1 / 4 \<le> double_0_3" "double_0_3 < 1 / 2" by (simp_all add: double_0_3_def)
  then have "nearest double_0_3
      = of_int (round_half_even (double_0_3 / pow2 (- 2 - 52))) * pow2 (- 2 - 52)"
    by (intro nearest_eval) (simp_all add: pow2_def)
  moreover have "double_0_3 / pow2 (- 2 - 52) = of_int 5404319552844595"
    by (simp add: double_0_3_def pow2_def)
  ultimately have "nearest double_0_3 = double_0_3"
    by (simp only: round_half_even_int) (simp add: double_0_3_def pow2_def)
  moreover have "- 2 \<le> double_0_3" "double_0_3 \<le> 2" by (simp_all add: double_0_3_def)
  note round_to_double_small[OF this]
  ultimately show ?thesis by (simp add: is_double_def)
qed

lemma double_0_9_is_double: "is_double double_0_9"
proof -
  have z: "1 / 2 \<le> double_0_9" "double_0_9 < 1" by (simp_all add: double_0_9_def)
  have "double_0_9 * 2 ^ 53 = of_int 8106479329266893" by (simp add: double_0_9_def)
  then have "round_half_even (double_0_9 * 2 ^ 53) = 8106479329266893"
    by (simp only: round_half_even_int)
  with nearest_half_binade[OF z] have "nearest double_0_9 = double_0_9"
    by (simp add: double_0_9_def)
  moreover from z have "- 2 \<le> double_0_9" "double_0_9 \<le> 2" by linarith+
  note round_to_double_small[OF this]
  ultimately show ?thesis by (simp add: is_double_def)
qed

lemma prob_at_centre:
  "prob exp_rounded \<lparr>dThreshLo = 1 / 4, dThreshHi = 3 / 4, dShift = 1, dScale = 1\<rparr> 1
     = Finite (1 / 2)"
  by (simp add: prob_def logisticSigmoid_def d_sub_def exp_rounded_def round_to_double_values)

text \<open>
  Claim C2, as the code has it. Whenever the stored sigmoid parameters violate
  \<open>0 \<le> threshold_lo < threshold_hi \<le> 1\<close> or have \<open>scale \<le> 0\<close>, \<^verbatim>\<open>probability\<close> fails with
  the validator's error, on every feature (the validation runs before \<^verbatim>\<open>classify\<close>).
  Whenever \<^verbatim>\<open>probability\<close> returns, the probability lies in \<open>[0, 1]\<close>, exceeds
  \<open>threshold_hi\<close> by at most the rounding error \<open>2\<^sup>-\<^sup>5\<^sup>3\<close>, and is at least \<open>threshold_lo\<close>
  (a double). And it does return, with the value of \<^verbatim>\<open>prob\<close> at the score, when the
  parameters are valid and \<^verbatim>\<open>classify\<close> returns a score. This holds for every library
  exponential that returns no negative number and no not-a-number.
\<close>

theorem probability_validates_first_and_is_bounded:
  assumes sane: "exp_sane libm_exp"
  shows
  "(\<not> sigmoid_valid (getSigmoidParams (savedState c)) \<longrightarrow>
      (\<exists>msg. validate (getSigmoidParams (savedState c)) = Inl (Check msg)
           \<and> probability libm_exp c pFeature = Inl (Check msg)))
   \<and> (\<forall>p score. probability libm_exp c pFeature = Inr (p, score) \<longrightarrow>
         0 \<le> p \<and> p \<le> 1
         \<and> p \<le> dThreshHi (getSigmoidParams (savedState c)) + 1 / 2 ^ 53
         \<and> (is_double (dThreshLo (getSigmoidParams (savedState c))) \<longrightarrow>
              dThreshLo (getSigmoidParams (savedState c)) \<le> p))
   \<and> (\<forall>score calls. sigmoid_valid (getSigmoidParams (savedState c))
         \<and> classify c pFeature = Inr (score, calls) \<longrightarrow>
         (\<exists>p. prob libm_exp (getSigmoidParams (savedState c)) score = Finite p
            \<and> probability libm_exp c pFeature = Inr (p, score)))"
proof (intro conjI impI allI)
  assume "\<not> sigmoid_valid (getSigmoidParams (savedState c))"
  from validate_fails[OF this] obtain msg where
    "validate (getSigmoidParams (savedState c)) = Inl (Check msg)" by blast
  then show "\<exists>msg. validate (getSigmoidParams (savedState c)) = Inl (Check msg)
           \<and> probability libm_exp c pFeature = Inl (Check msg)"
    by (simp add: probability_def bind_result_def)
next
  fix p score
  assume ret: "probability libm_exp c pFeature = Inr (p, score)"
  let ?sp = "getSigmoidParams (savedState c)"
  from ret have v: "validate ?sp = Inr ()"
    by (cases "validate ?sp") (simp_all add: probability_def bind_result_def)
  then have valid: "sigmoid_valid ?sp" by (simp add: validate_iff)
  from ret v obtain calls where cl: "classify c pFeature = Inr (score, calls)"
    by (cases "classify c pFeature")
       (auto simp: probability_def bind_result_def split: double.splits sum.splits)
  from prob_bounds[OF sane valid, of score] obtain q where
    q: "prob libm_exp ?sp score = Finite q" "0 \<le> q" "q \<le> 1"
       "q \<le> dThreshHi ?sp + 1 / 2 ^ 53" "is_double (dThreshLo ?sp) \<longrightarrow> dThreshLo ?sp \<le> q"
    by blast
  from ret v cl q(1) have "p = q"
    by (auto simp: probability_def bind_result_def split: sum.splits)
  with q show "0 \<le> p" "p \<le> 1" "p \<le> dThreshHi ?sp + 1 / 2 ^ 53"
    "is_double (dThreshLo ?sp) \<Longrightarrow> dThreshLo ?sp \<le> p"
    by simp_all
next
  fix score calls
  let ?sp = "getSigmoidParams (savedState c)"
  assume h: "sigmoid_valid ?sp \<and> classify c pFeature = Inr (score, calls)"
  then have v: "validate ?sp = Inr ()" by (simp add: validate_iff)
  from h prob_bounds[OF sane, of ?sp score] obtain q where
    q: "prob libm_exp ?sp score = Finite q" "0 \<le> q" "q \<le> 1"
    by blast
  with h v have "probability libm_exp c pFeature = Inr (q, score)"
    by (simp add: probability_def bind_result_def CHECKPROBABILITY_def not_less)
  with q(1) show "\<exists>p. prob libm_exp ?sp score = Finite p
            \<and> probability libm_exp c pFeature = Inr (p, score)"
    by blast
qed

theorem probability_validates_first_and_is_bounded_witness:
  "exp_sane exp_rounded
   \<and> probability exp_rounded
        (ex_classifier 0 \<lparr>dThreshLo = 1 / 4, dThreshHi = 3 / 4, dShift = 1, dScale = 0\<rparr>)
        (ex_feature 2 3) = Inl (Check ''Bad scale'')
   \<and> probability exp_rounded
        (ex_classifier 0 \<lparr>dThreshLo = 1 / 4, dThreshHi = 3 / 4, dShift = 1, dScale = 1\<rparr>)
        (ex_feature 2 3) = Inr (1 / 2, 1)
   \<and> is_double (1 / 4)
   \<and> (1 / 4 :: real) \<le> 1 / 2 \<and> (1 / 2 :: real) \<le> 3 / 4 + 1 / 2 ^ 53"
proof -
  let ?bad = "ex_classifier 0 \<lparr>dThreshLo = 1 / 4, dThreshHi = 3 / 4, dShift = 1, dScale = 0\<rparr>"
  let ?good = "ex_classifier 0 \<lparr>dThreshLo = 1 / 4, dThreshHi = 3 / 4, dShift = 1, dScale = 1\<rparr>"
  have cl: "classify ?good (ex_feature 2 3) = Inr (1, [])"
    by (simp add: ex_classifier_def ex_feature_def ex_stage_def bind_result_def classify_def
          keepPotentialCandidate_feature_def feature_value_def keepPotentialCandidate_val_def)
  have quarter: "is_double (1 / 4)"
    by (simp add: is_double_def round_to_double_values)
  from probability_validates_first_and_is_bounded[OF exp_rounded_sane, of ?bad "ex_feature 2 3"]
  have bad: "probability exp_rounded ?bad (ex_feature 2 3) = Inl (Check ''Bad scale'')"
    by (simp add: ex_classifier_def sigmoid_valid_def validate_def CHECKPROBABILITY_def
          CHECK_def bind_result_def)
  from probability_validates_first_and_is_bounded[OF exp_rounded_sane, of ?good "ex_feature 2 3"]
  have "\<forall>score calls. sigmoid_valid (getSigmoidParams (savedState ?good))
         \<and> classify ?good (ex_feature 2 3) = Inr (score, calls) \<longrightarrow>
         (\<exists>p. prob exp_rounded (getSigmoidParams (savedState ?good)) score = Finite p
            \<and> probability exp_rounded ?good (ex_feature 2 3) = Inr (p, score))"
    by blast
  with cl have "\<exists>p. prob exp_rounded (getSigmoidParams (savedState ?good)) 1 = Finite p
            \<and> probability exp_rounded ?good (ex_feature 2 3) = Inr (p, 1)"
    by (simp add: ex_classifier_def sigmoid_valid_def)
  then have good: "probability exp_rounded ?good (ex_feature 2 3) = Inr (1 / 2, 1)"
    by (auto simp: ex_classifier_def prob_at_centre)
  from exp_rounded_sane bad good quarter show ?thesis by simp
qed

text \<open>
  Claim C2 as it is worded (the returned probability is at most \<open>threshold_hi\<close>) fails in
  the arithmetic of the code. With the thresholds \<^verbatim>\<open>0.3\<close> and \<^verbatim>\<open>0.9\<close>, scale 64 and a
  feature that \<^verbatim>\<open>classify\<close> scores 1, the exponential is below half a unit in the last
  place of 1 and the sigmoid is exactly 1; \<^verbatim>\<open>0.9 - 0.3\<close> rounds up, the sum
  \<^verbatim>\<open>0.3 + (0.9 - 0.3) * 1.0\<close> rounds up again, and \<^verbatim>\<open>probability\<close> returns the double next
  above \<^verbatim>\<open>0.9\<close>.
\<close>

theorem probability_exceeds_threshold_hi_counterexample:
  "is_double double_0_3 \<and> is_double double_0_9
   \<and> validate \<lparr>dThreshLo = double_0_3, dThreshHi = double_0_9, dShift = 0, dScale = 64\<rparr> = Inr ()
   \<and> probability exp_rounded
        (ex_classifier 0 \<lparr>dThreshLo = double_0_3, dThreshHi = double_0_9, dShift = 0, dScale = 64\<rparr>)
        (ex_feature 2 3) = Inr (8106479329266894 / 2 ^ 53, 1)
   \<and> double_0_9 < 8106479329266894 / 2 ^ 53"
proof -
  let ?sp = "\<lparr>dThreshLo = double_0_3, dThreshHi = double_0_9, dShift = 0, dScale = 64\<rparr>"
  have cl: "classify (ex_classifier 0 ?sp) (ex_feature 2 3) = Inr (1, [])"
    by (simp add: ex_classifier_def ex_feature_def ex_stage_def bind_result_def classify_def
          keepPotentialCandidate_feature_def feature_value_def keepPotentialCandidate_val_def)
  have v: "validate ?sp = Inr ()"
    by (simp add: validate_iff sigmoid_valid_def double_0_3_def double_0_9_def)
  have "probability exp_rounded (ex_classifier 0 ?sp) (ex_feature 2 3)
          = Inr (8106479329266894 / 2 ^ 53, 1)"
    using cl v prob_overshoots
    by (simp add: probability_def ex_classifier_def bind_result_def CHECKPROBABILITY_def)
  moreover have "double_0_9 < 8106479329266894 / 2 ^ 53" by (simp add: double_0_9_def)
  ultimately show ?thesis using v double_0_3_is_double double_0_9_is_double by simp
qed

section \<open>Properties of the boundary interpolation\<close>

lemma numbered_simps [simp]:
  "numbered [] = []"
  "numbered ((b, None) # rows) = numbered rows"
  "numbered ((b, Some q) # rows) = (b, q) # numbered rows"
  by (simp_all add: numbered_def)

lemma closest_two_invariant:
  assumes "closest_two t rows (b1, p1, b2, p2) = (c1, q1, c2, q2)"
    and "\<bar>p1 - t\<bar> \<le> \<bar>p2 - t\<bar>"
    and "\<forall>x\<in>#M. \<bar>p2 - t\<bar> \<le> \<bar>snd x - t\<bar>"
  shows "\<exists>R. M + {#(b1, p1), (b2, p2)#} + mset (numbered rows) = {#(c1, q1), (c2, q2)#} + R
           \<and> \<bar>q1 - t\<bar> \<le> \<bar>q2 - t\<bar> \<and> (\<forall>x\<in>#R. \<bar>q2 - t\<bar> \<le> \<bar>snd x - t\<bar>)"
  using assms
proof (induction rows arbitrary: b1 p1 b2 p2 M)
  case Nil
  then show ?case by (intro exI[of _ M]) (auto simp: add_mset_commute)
next
  case (Cons r rows)
  obtain b po where r: "r = (b, po)" by (cases r)
  show ?case
  proof (cases po)
    case None
    with Cons r show ?thesis by simp
  next
    case (Some p)
    consider (first) "\<bar>p - t\<bar> < \<bar>p1 - t\<bar>"
      | (second) "\<not> \<bar>p - t\<bar> < \<bar>p1 - t\<bar>" "\<bar>p - t\<bar> < \<bar>p2 - t\<bar>"
      | (none) "\<not> \<bar>p - t\<bar> < \<bar>p1 - t\<bar>" "\<not> \<bar>p - t\<bar> < \<bar>p2 - t\<bar>"
      by blast
    then show ?thesis
    proof cases
      case first
      with Cons.prems r Some have run: "closest_two t rows (b, p, b1, p1) = (c1, q1, c2, q2)"
        by simp
      have ord: "\<bar>p - t\<bar> \<le> \<bar>p1 - t\<bar>" using first by simp
      have rest: "\<forall>x\<in>#add_mset (b2, p2) M. \<bar>p1 - t\<bar> \<le> \<bar>snd x - t\<bar>"
        using Cons.prems(2,3) by auto
      from Cons.IH[OF run ord rest] obtain R where
        "add_mset (b2, p2) M + {#(b, p), (b1, p1)#} + mset (numbered rows) = {#(c1, q1), (c2, q2)#} + R"
        "\<bar>q1 - t\<bar> \<le> \<bar>q2 - t\<bar>" "\<forall>x\<in>#R. \<bar>q2 - t\<bar> \<le> \<bar>snd x - t\<bar>"
        by blast
      then show ?thesis using r Some
        by (intro exI[of _ R]) (simp add: ac_simps add_mset_commute)
    next
      case second
      with Cons.prems r Some have run: "closest_two t rows (b1, p1, b, p) = (c1, q1, c2, q2)"
        by simp
      have ord: "\<bar>p1 - t\<bar> \<le> \<bar>p - t\<bar>" using second by simp
      have rest: "\<forall>x\<in>#add_mset (b2, p2) M. \<bar>p - t\<bar> \<le> \<bar>snd x - t\<bar>"
        using Cons.prems(3) second by auto
      from Cons.IH[OF run ord rest] obtain R where
        "add_mset (b2, p2) M + {#(b1, p1), (b, p)#} + mset (numbered rows) = {#(c1, q1), (c2, q2)#} + R"
        "\<bar>q1 - t\<bar> \<le> \<bar>q2 - t\<bar>" "\<forall>x\<in>#R. \<bar>q2 - t\<bar> \<le> \<bar>snd x - t\<bar>"
        by blast
      then show ?thesis using r Some
        by (intro exI[of _ R]) (simp add: ac_simps add_mset_commute)
    next
      case none
      with Cons.prems r Some have run: "closest_two t rows (b1, p1, b2, p2) = (c1, q1, c2, q2)"
        by simp
      have rest: "\<forall>x\<in>#add_mset (b, p) M. \<bar>p2 - t\<bar> \<le> \<bar>snd x - t\<bar>"
        using Cons.prems(3) none by auto
      from Cons.IH[OF run Cons.prems(2) rest] obtain R where
        "add_mset (b, p) M + {#(b1, p1), (b2, p2)#} + mset (numbered rows) = {#(c1, q1), (c2, q2)#} + R"
        "\<bar>q1 - t\<bar> \<le> \<bar>q2 - t\<bar>" "\<forall>x\<in>#R. \<bar>q2 - t\<bar> \<le> \<bar>snd x - t\<bar>"
        by blast
      then show ?thesis using r Some
        by (intro exI[of _ R]) (simp add: ac_simps add_mset_commute)
    qed
  qed
qed

lemma closest_two_nearest:
  assumes run: "closest_two t rows (0, HUGE, 0, HUGE) = (c1, q1, c2, q2)"
    and two: "2 \<le> length (numbered rows)"
    and near: "\<forall>x\<in>set (numbered rows). \<bar>snd x - t\<bar> < \<bar>HUGE - t\<bar>"
  shows "\<exists>R. mset (numbered rows) = {#(c1, q1), (c2, q2)#} + R
           \<and> \<bar>q1 - t\<bar> \<le> \<bar>q2 - t\<bar> \<and> (\<forall>x\<in>#R. \<bar>q2 - t\<bar> \<le> \<bar>snd x - t\<bar>)"
proof -
  let ?V = "mset (numbered rows)"
  let ?P = "\<lambda>x::real \<times> real. \<bar>snd x - t\<bar> < \<bar>HUGE - t\<bar>"
  from closest_two_invariant[OF run, of "{#}"] obtain R0 where
    eq: "{#(0, HUGE), (0, HUGE)#} + ?V = {#(c1, q1), (c2, q2)#} + R0"
    and ord: "\<bar>q1 - t\<bar> \<le> \<bar>q2 - t\<bar>"
    and rest: "\<forall>x\<in>#R0. \<bar>q2 - t\<bar> \<le> \<bar>snd x - t\<bar>"
    by auto
  have V: "filter_mset ?P ?V = ?V" using near by (simp add: filter_mset_eq_conv)
  from eq have "filter_mset ?P ({#(0, HUGE), (0, HUGE)#} + ?V)
                 = filter_mset ?P ({#(c1, q1), (c2, q2)#} + R0)" by simp
  then have feq: "?V = filter_mset ?P {#(c1, q1), (c2, q2)#} + filter_mset ?P R0"
    using V by simp
  have q2: "\<bar>q2 - t\<bar> < \<bar>HUGE - t\<bar>"
  proof (rule ccontr)
    assume far: "\<not> \<bar>q2 - t\<bar> < \<bar>HUGE - t\<bar>"
    with rest have "filter_mset ?P R0 = {#}"
      by auto
    with feq far have "size ?V \<le> 1"
      by (auto split: if_splits)
    with two show False by simp
  qed
  with ord have q1: "\<bar>q1 - t\<bar> < \<bar>HUGE - t\<bar>" by simp
  from feq q1 q2 have "?V = {#(c1, q1), (c2, q2)#} + filter_mset ?P R0" by simp
  moreover have "\<forall>x\<in>#filter_mset ?P R0. \<bar>q2 - t\<bar> \<le> \<bar>snd x - t\<bar>" using rest by simp
  ultimately show ?thesis using ord by blast
qed

lemma interpPrecisionBoundary_line:
  assumes "length (fst PRLookup) \<le> length (snd PRLookup)"
    and "closest_two t (zip (fst PRLookup) (snd PRLookup)) (0, HUGE, 0, HUGE) = (b1, p1, b2, p2)"
  shows "interpPrecisionBoundary t PRLookup =
           (if p2 = p1 then Inl (Check ''Line fit failed (probably a horizontal line)'')
            else Inr (b1 + (t - p1) * (b2 - b1) / (p2 - p1)))"
proof (cases "p2 = p1")
  case True
  with assms show ?thesis by (simp add: interpPrecisionBoundary_def)
next
  case False
  then have nz: "p2 - p1 \<noteq> 0" by simp
  define m where "m = (b2 - b1) / (p2 - p1)"
  have md: "m * (p2 - p1) = b2 - b1" using nz by (simp add: m_def)
  have "b1 - m * p1 - (b2 - m * p2) = b1 - b2 + m * (p2 - p1)"
    by (simp add: algebra_simps)
  with md have resid: "b1 - m * p1 - (b2 - m * p2) = 0" by simp
  have "t * m + (b1 - m * p1) = b1 + (t - p1) * m"
    by (simp add: algebra_simps)
  then have val: "t * m + (b1 - m * p1) = b1 + (t - p1) * (b2 - b1) / (p2 - p1)"
    by (simp add: m_def)
  from assms False have "interpPrecisionBoundary t PRLookup =
      bind_result (CHECK (\<not> zero_dbl (b1 - m * p1 - (b2 - m * p2)))
                     ''Line fit failed (probably a horizontal line)'')
        (\<lambda>_. Inr (t * m + (b1 - m * p1)))"
    by (simp add: interpPrecisionBoundary_def Let_def m_def)
  also have "\<dots> = Inr (t * m + (b1 - m * p1))"
    by (simp add: resid CHECK_def zero_dbl_def bind_result_def)
  finally show ?thesis using False val by simp
qed

text \<open>
  Claim C6. When a state file stores a boundary lookup and a target precision \<open>t\<close> is
  requested, and the lookup holds at least two samples with a numeric precision, each
  nearer to \<open>t\<close> than \<^verbatim>\<open>HUGE\<close> is, then two of the stored samples \<open>(b1, p1)\<close> and
  \<open>(b2, p2)\<close> are nearest to \<open>t\<close> in precision (every other stored sample is at least as
  far from \<open>t\<close> as \<open>p2\<close> is, and \<open>p1\<close> is at least as near as \<open>p2\<close>), and, unless
  \<open>p1 = p2\<close>, loading succeeds with the classification boundary on the straight line
  through the two samples at \<open>t\<close>. In the scenario (target \<open>0.9\<close>, lookup
  \<open>[(-1, 0.5), (0, 0.8), (1, 0.95)]\<close>) the boundary lies strictly between 0 and 1.
\<close>

theorem load_boundary_interpolates_nearest_two:
  "(yaml_boundaries fs = Some boundaries \<and> t \<noteq> NO_PRECISION
      \<and> length boundaries \<le> length (yaml_precision fs)
      \<and> 2 \<le> length (stored_samples (boundaries, yaml_precision fs))
      \<and> (\<forall>x\<in>set (stored_samples (boundaries, yaml_precision fs)). \<bar>snd x - t\<bar> < \<bar>HUGE - t\<bar>)
    \<longrightarrow> (\<exists>b1 p1 b2 p2 R.
           mset (stored_samples (boundaries, yaml_precision fs)) = {#(b1, p1), (b2, p2)#} + R
           \<and> \<bar>p1 - t\<bar> \<le> \<bar>p2 - t\<bar>
           \<and> (\<forall>x\<in>#R. \<bar>p2 - t\<bar> \<le> \<bar>snd x - t\<bar>)
           \<and> (p1 \<noteq> p2 \<longrightarrow>
                (\<exists>st. CSavedSVMState_load (Some fs) t = Inr st
                    \<and> getClassificationBoundary st = b1 + (t - p1) * (b2 - b1) / (p2 - p1)))))
   \<and> (\<exists>st. CSavedSVMState_load (Some scenario_file) (9 / 10) = Inr st
          \<and> 0 < getClassificationBoundary st \<and> getClassificationBoundary st < 1)"
proof (intro conjI impI)
  assume h: "yaml_boundaries fs = Some boundaries \<and> t \<noteq> NO_PRECISION
      \<and> length boundaries \<le> length (yaml_precision fs)
      \<and> 2 \<le> length (stored_samples (boundaries, yaml_precision fs))
      \<and> (\<forall>x\<in>set (stored_samples (boundaries, yaml_precision fs)). \<bar>snd x - t\<bar> < \<bar>HUGE - t\<bar>)"
  let ?rows = "zip boundaries (yaml_precision fs)"
  obtain b1 p1 b2 p2 where run: "closest_two t ?rows (0, HUGE, 0, HUGE) = (b1, p1, b2, p2)"
    by (metis prod_cases4)
  from h have two: "2 \<le> length (numbered ?rows)"
    and near: "\<forall>x\<in>set (numbered ?rows). \<bar>snd x - t\<bar> < \<bar>HUGE - t\<bar>"
    by (simp_all add: stored_samples_def)
  from closest_two_nearest[OF run two near] obtain R where
    R: "mset (numbered ?rows) = {#(b1, p1), (b2, p2)#} + R" "\<bar>p1 - t\<bar> \<le> \<bar>p2 - t\<bar>"
       "\<forall>x\<in>#R. \<bar>p2 - t\<bar> \<le> \<bar>snd x - t\<bar>"
    by blast
  have line: "interpPrecisionBoundary t (boundaries, yaml_precision fs) =
           (if p2 = p1 then Inl (Check ''Line fit failed (probably a horizontal line)'')
            else Inr (b1 + (t - p1) * (b2 - b1) / (p2 - p1)))"
    using h run by (intro interpPrecisionBoundary_line) simp_all
  have "p1 \<noteq> p2 \<longrightarrow>
          (\<exists>st. CSavedSVMState_load (Some fs) t = Inr st
              \<and> getClassificationBoundary st = b1 + (t - p1) * (b2 - b1) / (p2 - p1))"
    using h line by (auto simp: CSavedSVMState_load_def bind_result_def)
  with R show "\<exists>b1 p1 b2 p2 R.
           mset (stored_samples (boundaries, yaml_precision fs)) = {#(b1, p1), (b2, p2)#} + R
           \<and> \<bar>p1 - t\<bar> \<le> \<bar>p2 - t\<bar>
           \<and> (\<forall>x\<in>#R. \<bar>p2 - t\<bar> \<le> \<bar>snd x - t\<bar>)
           \<and> (p1 \<noteq> p2 \<longrightarrow>
                (\<exists>st. CSavedSVMState_load (Some fs) t = Inr st
                    \<and> getClassificationBoundary st = b1 + (t - p1) * (b2 - b1) / (p2 - p1)))"
    unfolding stored_samples_def fst_conv snd_conv by blast
next
  have "interpPrecisionBoundary (9 / 10) scenario_lookup = Inr (2 / 3)"
    by (simp add: interpPrecisionBoundary_def scenario_lookup_def HUGE_def Let_def CHECK_def
          zero_dbl_def bind_result_def)
  then show "\<exists>st. CSavedSVMState_load (Some scenario_file) (9 / 10) = Inr st
          \<and> 0 < getClassificationBoundary st \<and> getClassificationBoundary st < 1"
    by (simp add: CSavedSVMState_load_def scenario_file_def CSavedSVMState_save_def
          NO_PRECISION_def bind_result_def)
qed

theorem load_boundary_interpolates_nearest_two_witness:
  "(yaml_boundaries scenario_file = Some [- 1, 0, 1] \<and> 9 / 10 \<noteq> NO_PRECISION
      \<and> length [- 1, 0, 1 :: real] \<le> length (yaml_precision scenario_file)
      \<and> 2 \<le> length (stored_samples ([- 1, 0, 1], yaml_precision scenario_file))
      \<and> list_all (\<lambda>x. \<bar>snd x - 9 / 10\<bar> < \<bar>HUGE - 9 / 10\<bar>)
           (stored_samples ([- 1, 0, 1], yaml_precision scenario_file)))
   \<and> (\<exists>b1 p1 b2 p2 R.
         mset (stored_samples ([- 1, 0, 1], yaml_precision scenario_file)) = {#(b1, p1), (b2, p2)#} + R
         \<and> \<bar>p1 - 9 / 10\<bar> \<le> \<bar>p2 - 9 / 10\<bar>
         \<and> (\<forall>x\<in>#R. \<bar>p2 - 9 / 10\<bar> \<le> \<bar>snd x - 9 / 10\<bar>)
         \<and> (p1 \<noteq> p2 \<longrightarrow>
              (\<exists>st. CSavedSVMState_load (Some scenario_file) (9 / 10) = Inr st
                  \<and> getClassificationBoundary st = b1 + (9 / 10 - p1) * (b2 - b1) / (p2 - p1))))"
proof -
  have hyps: "yaml_boundaries scenario_file = Some [- 1, 0, 1] \<and> 9 / 10 \<noteq> NO_PRECISION
      \<and> length [- 1, 0, 1 :: real] \<le> length (yaml_precision scenario_file)
      \<and> 2 \<le> length (stored_samples ([- 1, 0, 1], yaml_precision scenario_file))
      \<and> list_all (\<lambda>x. \<bar>snd x - 9 / 10\<bar> < \<bar>HUGE - 9 / 10\<bar>)
           (stored_samples ([- 1, 0, 1], yaml_precision scenario_file))"
    by (simp add: scenario_file_def scenario_lookup_def CSavedSVMState_save_def NO_PRECISION_def
          stored_samples_def numbered_def HUGE_def)
  with load_boundary_interpolates_nearest_two [of scenario_file "[- 1, 0, 1]" "9 / 10"]
  show ?thesis by (simp add: list_all_iff)
qed

section \<open>Properties of the normalising coefficients\<close>

lemma column_map:
  "\<forall>f\<in>set fs. i < length f \<Longrightarrow> column fs (int i) = Inr (map (\<lambda>f. f ! i) fs)"
  by (induction fs) (auto simp: vec_at_def bind_result_def)

lemma scale_of_pos: "0 < scale_of dSD"
  by (simp add: scale_of_def)

lemma findNormalisingCoeffs_feature_value:
  assumes "\<forall>f\<in>set (all_examples aaadFeatures). i < length f"
  shows "findNormalisingCoeffs_feature meanSD aaadFeatures (int i) =
           Inr (fst (meanSD (feature_values aaadFeatures i)),
                scale_of (snd (meanSD (feature_values aaadFeatures i))))"
  using column_map[OF assms]
  by (simp add: findNormalisingCoeffs_feature_def feature_values_def all_examples_def
        bind_result_def scale_of_def split: prod.splits)

lemma findNormalisingCoeffs_loop_map:
  assumes "\<forall>i\<in>set idxs. \<forall>f\<in>set (all_examples aaadFeatures). i < length f"
  shows "findNormalisingCoeffs_loop meanSD aaadFeatures idxs =
           Inr (map (\<lambda>i. (fst (meanSD (feature_values aaadFeatures i)),
                          scale_of (snd (meanSD (feature_values aaadFeatures i))))) idxs)"
  using assms
proof (induction idxs)
  case Nil
  show ?case by simp
next
  case (Cons i idxs)
  have nz: "scale_of (snd (meanSD (feature_values aaadFeatures i))) \<noteq> 0"
    using scale_of_pos[of "snd (meanSD (feature_values aaadFeatures i))"] by simp
  from Cons show ?case
    by (simp add: findNormalisingCoeffs_feature_value bind_result_def CHECK_def nz)
qed

text \<open>
  Claim C9. On a training set with a negative example, in which every example is at least
  as wide as the first negative one, \<^verbatim>\<open>findNormalisingCoeffs\<close> returns; it leaves the
  subset alone and stores, for every feature index, the mean that \<^verbatim>\<open>meanSD\<close> reports for
  the values of that feature over both classes combined, and the scale \<open>1 / sd\<close> for the
  standard deviation \<open>sd\<close> that \<^verbatim>\<open>meanSD\<close> reports, or 1 when \<open>sd\<close> is not positive. Every
  scale is a non-zero number. This holds for every function \<^verbatim>\<open>meanSD\<close>.
\<close>

theorem findNormalisingCoeffs_mean_and_scale:
  assumes "negatives aaadFeatures \<noteq> []"
    and "\<forall>f\<in>set (all_examples aaadFeatures). nDims_of aaadFeatures \<le> length f"
  shows "\<exists>sel'. findNormalisingCoeffs meanSD sel aaadFeatures = Inr sel'
           \<and> anFeatureIdxSubset sel' = anFeatureIdxSubset sel
           \<and> length (adNormalisingMean sel') = nDims_of aaadFeatures
           \<and> length (adNormalisingScale sel') = nDims_of aaadFeatures
           \<and> (\<forall>i<nDims_of aaadFeatures.
                 adNormalisingMean sel' ! i = fst (meanSD (feature_values aaadFeatures i))
               \<and> adNormalisingScale sel' ! i =
                   (if snd (meanSD (feature_values aaadFeatures i)) > 0
                    then 1 / snd (meanSD (feature_values aaadFeatures i)) else 1)
               \<and> adNormalisingScale sel' ! i \<noteq> 0)"
proof -
  from assms(1) obtain first rest where neg: "negatives aaadFeatures = first # rest"
    by (cases "negatives aaadFeatures") auto
  then have nd: "nDims_of aaadFeatures = length first" by (simp add: nDims_of_def)
  have rd: "\<forall>i\<in>set [0..<length first]. \<forall>f\<in>set (all_examples aaadFeatures). i < length f"
    using assms(2) nd by fastforce
  note loop = findNormalisingCoeffs_loop_map[OF rd, of meanSD]
  have nz: "scale_of x \<noteq> 0" for x using scale_of_pos[of x] by simp
  show ?thesis
    using neg nd loop
    by (simp add: findNormalisingCoeffs_def bind_result_def Let_def o_def nz)
       (simp add: scale_of_def)
qed

theorem findNormalisingCoeffs_mean_and_scale_witness:
  "negatives ex_two_examples \<noteq> []
   \<and> list_all (\<lambda>f. nDims_of ex_two_examples \<le> length f) (all_examples ex_two_examples)
   \<and> findNormalisingCoeffs meanSD_population CFeatureSubsetSelecter_empty ex_two_examples
       = Inr \<lparr>anFeatureIdxSubset = [], adNormalisingMean = [2, 5], adNormalisingScale = [1 / 2, 1]\<rparr>
   \<and> (\<exists>sel'. findNormalisingCoeffs meanSD_population CFeatureSubsetSelecter_empty ex_two_examples
                = Inr sel'
           \<and> length (adNormalisingScale sel') = nDims_of ex_two_examples
           \<and> list_all (\<lambda>s. s \<noteq> 0) (adNormalisingScale sel'))"
proof -
  have hyps: "negatives ex_two_examples \<noteq> []
      \<and> list_all (\<lambda>f. nDims_of ex_two_examples \<le> length f) (all_examples ex_two_examples)"
    by (simp add: ex_two_examples_def nDims_of_def all_examples_def)
  have val: "findNormalisingCoeffs meanSD_population CFeatureSubsetSelecter_empty ex_two_examples
       = Inr \<lparr>anFeatureIdxSubset = [], adNormalisingMean = [2, 5], adNormalisingScale = [1 / 2, 1]\<rparr>"
    by (simp add: findNormalisingCoeffs_def findNormalisingCoeffs_feature_def ex_two_examples_def
          meanSD_population_def CFeatureSubsetSelecter_empty_def vec_at_def bind_result_def
          CHECK_def Let_def upt_rec)
  from hyps findNormalisingCoeffs_mean_and_scale
         [of ex_two_examples meanSD_population CFeatureSubsetSelecter_empty]
  have "\<exists>sel'. findNormalisingCoeffs meanSD_population CFeatureSubsetSelecter_empty ex_two_examples
                = Inr sel'
           \<and> length (adNormalisingScale sel') = nDims_of ex_two_examples
           \<and> (\<forall>i<nDims_of ex_two_examples. adNormalisingScale sel' ! i \<noteq> 0)"
    by (simp add: list_all_iff) blast
  then have "\<exists>sel'. findNormalisingCoeffs meanSD_population CFeatureSubsetSelecter_empty ex_two_examples
                = Inr sel'
           \<and> length (adNormalisingScale sel') = nDims_of ex_two_examples
           \<and> list_all (\<lambda>s. s \<noteq> 0) (adNormalisingScale sel')"
    by (auto simp: list_all_length)
  with hyps val show ?thesis by blast
qed

section \<open>Properties of the cascade construction\<close>

lemma count_snoc:
  "count_neg (pre @ [x]) = (if snd x then count_neg pre else Suc (count_neg pre))"
  "count_pos (pre @ [x]) = (if snd x then Suc (count_pos pre) else count_pos pre)"
  by (simp_all add: count_neg_def count_pos_def)

lemma split_scan_split:
  assumes "split_scan xs (real (count_pos pre), real (count_neg pre), thr0, rem0) = (thr, rem)"
  shows "(thr, rem) = (thr0, rem0)
       \<or> (\<exists>a b. pre @ xs = a @ b \<and> a \<noteq> [] \<and> b \<noteq> [] \<and> fst (last a) \<noteq> fst (hd b)
              \<and> thr = 0.5 * (fst (last a) + fst (hd b))
              \<and> rem = real (count_neg a)
              \<and> real (count_pos a) < 0.0005 * real (count_neg a))"
  using assms
proof (induction xs arbitrary: pre thr0 rem0)
  case Nil
  then show ?case by simp
next
  case (Cons cur xs)
  show ?case
  proof (cases xs)
    case Nil
    with Cons.prems show ?thesis by simp
  next
    case (Cons nxt rest)
    let ?pre = "pre @ [cur]"
    have cnt: "real (count_pos ?pre) = (if snd cur then real (count_pos pre) + 1 else real (count_pos pre))"
              "real (count_neg ?pre) = (if snd cur then real (count_neg pre) else real (count_neg pre) + 1)"
      by (simp_all add: count_snoc)
    show ?thesis
    proof (cases "real (count_pos ?pre) < 0.0005 * real (count_neg ?pre) \<and> fst cur \<noteq> fst nxt")
      case True
      with Cons.prems Cons cnt
      have run: "split_scan xs (real (count_pos ?pre), real (count_neg ?pre),
                   0.5 * (fst cur + fst nxt), real (count_neg ?pre)) = (thr, rem)"
        by (simp add: Let_def split: if_splits)
      from Cons.IH[OF run] show ?thesis
      proof
        assume "(thr, rem) = (0.5 * (fst cur + fst nxt), real (count_neg ?pre))"
        with True Cons have "pre @ cur # xs = ?pre @ xs \<and> ?pre \<noteq> [] \<and> xs \<noteq> []
            \<and> fst (last ?pre) \<noteq> fst (hd xs)
            \<and> thr = 0.5 * (fst (last ?pre) + fst (hd xs))
            \<and> rem = real (count_neg ?pre)
            \<and> real (count_pos ?pre) < 0.0005 * real (count_neg ?pre)"
          by simp
        then show ?thesis by blast
      next
        assume "\<exists>a b. ?pre @ xs = a @ b \<and> a \<noteq> [] \<and> b \<noteq> [] \<and> fst (last a) \<noteq> fst (hd b)
              \<and> thr = 0.5 * (fst (last a) + fst (hd b))
              \<and> rem = real (count_neg a)
              \<and> real (count_pos a) < 0.0005 * real (count_neg a)"
        then show ?thesis by simp
      qed
    next
      case False
      with Cons.prems Cons cnt
      have run: "split_scan xs (real (count_pos ?pre), real (count_neg ?pre), thr0, rem0) = (thr, rem)"
        by (simp add: Let_def split: if_splits)
      from Cons.IH[OF run] show ?thesis by simp
    qed
  qed
qed

lemma sorted_split_threshold:
  fixes k :: "'a \<Rightarrow> real"
  assumes srt: "sorted (map k (a @ b))" and a: "a \<noteq> []" and b: "b \<noteq> []"
    and ne: "k (last a) \<noteq> k (hd b)"
  shows "(\<forall>x\<in>set a. k x < (k (last a) + k (hd b)) / 2)
       \<and> (\<forall>y\<in>set b. (k (last a) + k (hd b)) / 2 < k y)"
proof -
  from a obtain a' l where a_eq: "a = a' @ [l]" by (metis append_butlast_last_id)
  from b obtain h b' where b_eq: "b = h # b'" by (cases b) auto
  from srt have cross: "\<forall>x\<in>set a. \<forall>y\<in>set b. k x \<le> k y"
    by (auto simp: sorted_append)
  from srt a_eq have "sorted (map k a' @ [k l])" by (simp add: sorted_append)
  then have below: "\<forall>x\<in>set a. k x \<le> k l"
    using a_eq by (auto simp: sorted_append)
  from srt b_eq have above: "\<forall>y\<in>set b. k h \<le> k y"
    by (auto simp: sorted_append)
  from cross a_eq b_eq have "k l \<le> k h" by simp
  with ne a_eq b_eq have lt: "k l < k h" by simp
  have la: "last a = l" "hd b = h" using a_eq b_eq by simp_all
  show ?thesis
  proof (intro conjI ballI)
    fix x assume "x \<in> set a"
    with below have "k x \<le> k l" by blast
    with lt show "k x < (k (last a) + k (hd b)) / 2" unfolding la by simp
  next
    fix y assume "y \<in> set b"
    with above have "k h \<le> k y" by blast
    with lt show "(k (last a) + k (hd b)) / 2 < k y" unfolding la by simp
  qed
qed

lemma keep_by_sort_value:
  "keepPotentialCandidate_val
     \<lparr>getFeatureIdx = i, getThreshold = 0.5 * (fst l + fst h), rejectAbove = ra\<rparr> (fst x)
   \<longleftrightarrow> (sort_value ra l + sort_value ra h) / 2 < sort_value ra x"
  by (auto simp: keepPotentialCandidate_val_def sort_value_def)

lemma sort_features_sorts: "sorts_by_one_feature sort_features"
proof -
  have "sort_features ra xs = sort_key (sort_value ra) xs" for ra xs
    by (cases ra) (simp_all add: sort_features_def sort_value_def[abs_def])
  then show ?thesis by (simp add: sorts_by_one_feature_def)
qed

lemma length_filter_mset_cong:
  "mset xs = mset ys \<Longrightarrow> length (filter Q xs) = length (filter Q ys)"
  by (metis mset_filter size_mset)

text \<open>A recorded split removes exactly the part of the sorted list before it.\<close>

lemma split_removes_prefix:
  fixes i :: int
  assumes srt: "sorted (map (sort_value ra) (a @ b))" and a: "a \<noteq> []" and b: "b \<noteq> []"
    and ne: "fst (last a) \<noteq> fst (hd b)"
  defines "st \<equiv> \<lparr>getFeatureIdx = i, getThreshold = 0.5 * (fst (last a) + fst (hd b)), rejectAbove = ra\<rparr>"
  shows "filter (\<lambda>x. \<not> keepPotentialCandidate_val st (fst x)) (a @ b) = a"
proof -
  have ne': "sort_value ra (last a) \<noteq> sort_value ra (hd b)"
    using ne by (simp add: sort_value_def)
  from sorted_split_threshold[OF srt a b ne']
  have "\<forall>x\<in>set a. \<not> keepPotentialCandidate_val st (fst x)"
       "\<forall>y\<in>set b. keepPotentialCandidate_val st (fst y)"
    unfolding st_def keep_by_sort_value by (auto simp: not_less intro: less_imp_le)
  then show ?thesis by (simp add: filter_empty_conv)
qed

lemma column_Inr:
  "column fs i = Inr vals \<Longrightarrow>
   vals = map (\<lambda>f. f ! nat i) fs \<and> (\<forall>f\<in>set fs. 0 \<le> i \<and> i < int (length f))"
  by (induction fs arbitrary: vals)
     (auto simp: vec_at_def bind_result_def split: if_splits sum.splits)

lemma filter_examples_filter:
  "column fs (getFeatureIdx st) = Inr vals \<Longrightarrow>
   filter_examples st fs =
     Inr (filter (\<lambda>f. keepPotentialCandidate_val st (f ! nat (getFeatureIdx st))) fs)"
  by (induction fs arbitrary: vals)
     (auto simp: keepPotentialCandidate_mat_def vec_at_def bind_result_def
           split: if_splits sum.splits)

lemma length_filter_column:
  "length (filter (\<lambda>f. P (f ! n)) fs) = length (filter P (map (\<lambda>f. f ! n) fs))"
  by (induction fs) auto

lemma length_filter_not:
  "length (filter (\<lambda>x. \<not> P x) xs) = length xs - length (filter P xs)"
  using sum_length_filter_compl[of P xs] by simp

lemma labelled_filter_counts:
  "length (filter (\<lambda>x. \<not> snd x \<and> Q (fst x)) (map (\<lambda>v. (v, False)) ns @ map (\<lambda>v. (v, True)) ps))
     = length (filter Q ns)"
  "length (filter (\<lambda>x. snd x \<and> Q (fst x)) (map (\<lambda>v. (v, False)) ns @ map (\<lambda>v. (v, True)) ps))
     = length (filter Q ps)"
  by (simp_all add: filter_map o_def)

lemma findBoosterState_accepted:
  assumes srt_ok: "sorts_by_one_feature std_sort"
    and run: "findBoosterState std_sort aaadFeatures i ra = Inr (p, st)" and acc: "p \<noteq> 0"
  shows "\<exists>newNeg newPos.
           getFeatureIdx st = i \<and> rejectAbove st = ra
         \<and> filter_examples st (negatives aaadFeatures) = Inr newNeg
         \<and> filter_examples st (positives aaadFeatures) = Inr newPos
         \<and> 150 \<le> real (length (negatives aaadFeatures) - length newNeg)
         \<and> 0.1 * real (length (negatives aaadFeatures))
              \<le> real (length (negatives aaadFeatures) - length newNeg)
         \<and> p = real (length (negatives aaadFeatures) - length newNeg)
                  / real (length (negatives aaadFeatures))
         \<and> real (length (positives aaadFeatures) - length newPos)
              < 0.0005 * real (length (negatives aaadFeatures) - length newNeg)"
proof -
  let ?negs = "negatives aaadFeatures" and ?poss = "positives aaadFeatures"
  from run obtain negVals where cn: "column ?negs i = Inr negVals"
    by (cases "column ?negs i") (simp_all add: findBoosterState_def bind_result_def)
  from run cn obtain posVals where cp: "column ?poss i = Inr posVals"
    by (cases "column ?poss i") (simp_all add: findBoosterState_def bind_result_def)
  define ys where "ys = map (\<lambda>v. (v, False)) negVals @ map (\<lambda>v. (v, True)) posVals"
  define xs where "xs = std_sort ra ys"
  obtain thr rem where sc: "split_scan xs (0, 0, - HUGE, - 1) = (thr, rem)"
    by (cases "split_scan xs (0, 0, - HUGE, - 1)") auto
  let ?n = "length ?negs"
  from run cn cp sc acc
  have ok: "?n \<noteq> 0" "\<not> rem / real ?n < 0.1" "\<not> rem < 150"
    and p: "p = rem / real ?n"
    and st: "st = \<lparr>getFeatureIdx = i, getThreshold = thr, rejectAbove = ra\<rparr>"
    by (auto simp: findBoosterState_def bind_result_def Let_def xs_def ys_def split: if_splits)
  from sc have "split_scan xs (real (count_pos []), real (count_neg []), - HUGE, - 1) = (thr, rem)"
    by (simp add: count_pos_def count_neg_def)
  from split_scan_split[OF this] ok(3)
  obtain a b where ab: "xs = a @ b" "a \<noteq> []" "b \<noteq> []" "fst (last a) \<noteq> fst (hd b)"
      "thr = 0.5 * (fst (last a) + fst (hd b))" "rem = real (count_neg a)"
      "real (count_pos a) < 0.0005 * real (count_neg a)"
    by auto
  have "sorted (map (sort_value ra) xs)"
    using srt_ok by (simp add: xs_def sorts_by_one_feature_def)
  then have srt: "sorted (map (sort_value ra) (a @ b))"
    unfolding ab(1) .
  have ms: "mset xs = mset ys"
    using srt_ok by (simp add: xs_def sorts_by_one_feature_def)
  let ?keep = "keepPotentialCandidate_val st"
  have st': "st = \<lparr>getFeatureIdx = i, getThreshold = 0.5 * (fst (last a) + fst (hd b)),
                   rejectAbove = ra\<rparr>"
    unfolding st ab(5) ..
  have removed: "filter (\<lambda>x. \<not> ?keep (fst x)) xs = a"
    unfolding st' ab(1) by (rule split_removes_prefix[OF srt ab(2,3,4)])
  have "count_neg a = length (filter (\<lambda>x. \<not> snd x \<and> \<not> ?keep (fst x)) xs)"
    unfolding count_neg_def removed[symmetric] by (simp add: conj_commute)
  also have "\<dots> = length (filter (\<lambda>x. \<not> snd x \<and> \<not> ?keep (fst x)) ys)"
    by (rule length_filter_mset_cong[OF ms])
  also have "\<dots> = length (filter (\<lambda>v. \<not> ?keep v) negVals)"
    unfolding ys_def by (rule labelled_filter_counts(1))
  finally have cneg: "count_neg a = length negVals - length (filter ?keep negVals)"
    by (simp add: length_filter_not)
  have "count_pos a = length (filter (\<lambda>x. snd x \<and> \<not> ?keep (fst x)) xs)"
    unfolding count_pos_def removed[symmetric] by (simp add: conj_commute)
  also have "\<dots> = length (filter (\<lambda>x. snd x \<and> \<not> ?keep (fst x)) ys)"
    by (rule length_filter_mset_cong[OF ms])
  also have "\<dots> = length (filter (\<lambda>v. \<not> ?keep v) posVals)"
    unfolding ys_def by (rule labelled_filter_counts(2))
  finally have cpos: "count_pos a = length posVals - length (filter ?keep posVals)"
    by (simp add: length_filter_not)
  have idx: "getFeatureIdx st = i" "rejectAbove st = ra" using st by simp_all
  define newNeg where "newNeg = filter (\<lambda>f. ?keep (f ! nat i)) ?negs"
  define newPos where "newPos = filter (\<lambda>f. ?keep (f ! nat i)) ?poss"
  have fn: "filter_examples st ?negs = Inr newNeg"
    using filter_examples_filter[of ?negs st negVals] cn idx by (simp add: newNeg_def)
  have fp: "filter_examples st ?poss = Inr newPos"
    using filter_examples_filter[of ?poss st posVals] cp idx by (simp add: newPos_def)
  have nv: "negVals = map (\<lambda>f. f ! nat i) ?negs" "posVals = map (\<lambda>f. f ! nat i) ?poss"
    using column_Inr[OF cn] column_Inr[OF cp] by simp_all
  have ln: "length newNeg = length (filter ?keep negVals)"
    unfolding newNeg_def nv by (rule length_filter_column)
  have lp: "length newPos = length (filter ?keep posVals)"
    unfolding newPos_def nv by (rule length_filter_column)
  have rem_eq: "rem = real (?n - length newNeg)"
    using ab(6) cneg ln nv(1) by simp
  have pos_eq: "real (count_pos a) = real (length ?poss - length newPos)"
    using cpos lp nv(2) by simp
  have "150 \<le> rem" using ok(3) by simp
  moreover have "0.1 * real ?n \<le> rem"
    using ok(1,2) by (simp add: not_less pos_divide_le_eq mult.commute)
  moreover have "real (length ?poss - length newPos) < 0.0005 * rem"
    using ab(6,7) pos_eq by simp
  ultimately show ?thesis
    using idx fn fp p rem_eq by auto
qed

lemma best_candidate_loop_result:
  "best_candidate_loop std_sort aaadFeatures cands best0 = Inr best \<Longrightarrow>
   best = best0 \<or> (\<exists>c\<in>set cands. findBoosterState std_sort aaadFeatures (snd c) (fst c) = Inr best
                       \<and> fst best0 < fst best)"
proof (induction cands arbitrary: best0)
  case Nil
  then show ?case by simp
next
  case (Cons c cands)
  obtain ra i where c: "c = (ra, i)" by (cases c)
  from Cons.prems c obtain cand where
    cand: "findBoosterState std_sort aaadFeatures i ra = Inr cand"
    and run: "best_candidate_loop std_sort aaadFeatures cands
                (if fst cand > fst best0 then cand else best0) = Inr best"
    by (cases "findBoosterState std_sort aaadFeatures i ra") (simp_all add: bind_result_def)
  from Cons.IH[OF run] show ?case
  proof
    assume "best = (if fst cand > fst best0 then cand else best0)"
    with cand c show ?thesis by (auto split: if_splits)
  next
    assume "\<exists>c'\<in>set cands. findBoosterState std_sort aaadFeatures (snd c') (fst c') = Inr best
               \<and> fst (if fst cand > fst best0 then cand else best0) < fst best"
    then obtain c' where "c' \<in> set cands"
      "findBoosterState std_sort aaadFeatures (snd c') (fst c') = Inr best"
      "fst (if fst cand > fst best0 then cand else best0) < fst best"
      by blast
    moreover from this(3) have "fst best0 < fst best" by (simp split: if_splits)
    ultimately show ?thesis by auto
  qed
qed

lemma best_candidate_loop_all_rejected:
  "\<forall>c\<in>set cands. findBoosterState std_sort aaadFeatures (snd c) (fst c) = Inr (0, CBoosterState_default) \<Longrightarrow>
   best_candidate_loop std_sort aaadFeatures cands (0, CBoosterState_default) = Inr (0, CBoosterState_default)"
  by (induction cands) (auto simp: bind_result_def)

lemma findBestBoosterState_accepted:
  assumes "findBestBoosterState std_sort aaadFeatures = Inr st" and "0 \<le> getFeatureIdx st"
  shows "\<exists>c\<in>set (candidates (nDims_of aaadFeatures)). \<exists>p.
           findBoosterState std_sort aaadFeatures (snd c) (fst c) = Inr (p, st) \<and> p \<noteq> 0"
proof -
  from assms(1) obtain first rest where neg: "negatives aaadFeatures = first # rest"
    by (cases "negatives aaadFeatures") (simp_all add: findBestBoosterState_def)
  then have nd: "nDims_of aaadFeatures = length first" by (simp add: nDims_of_def)
  from assms(1) neg obtain best where
    run: "best_candidate_loop std_sort aaadFeatures (candidates (length first)) (0, CBoosterState_default)
            = Inr best"
    and st: "st = snd best"
    by (cases "best_candidate_loop std_sort aaadFeatures (candidates (length first)) (0, CBoosterState_default)")
       (auto simp: findBestBoosterState_def bind_result_def)
  from best_candidate_loop_result[OF run] show ?thesis
  proof
    assume "best = (0, CBoosterState_default)"
    with st assms(2) show ?thesis by (simp add: CBoosterState_default_def)
  next
    assume "\<exists>c\<in>set (candidates (length first)).
              findBoosterState std_sort aaadFeatures (snd c) (fst c) = Inr best
              \<and> fst (0, CBoosterState_default) < fst best"
    then obtain c where "c \<in> set (candidates (length first))"
      "findBoosterState std_sort aaadFeatures (snd c) (fst c) = Inr best" "0 < fst best"
      by auto
    with st nd show ?thesis
      by (intro bexI[of _ c] exI[of _ "fst best"]) auto
  qed
qed

lemma boosting_round_Some:
  assumes "boosting_round std_sort aaadFeatures = Inr (Some (st, newFeatures))"
  shows "\<exists>c\<in>set (candidates (nDims_of aaadFeatures)). \<exists>p.
           findBoosterState std_sort aaadFeatures (snd c) (fst c) = Inr (p, st) \<and> p \<noteq> 0
         \<and> filter_examples st (negatives aaadFeatures) = Inr (negatives newFeatures)
         \<and> filter_examples st (positives aaadFeatures) = Inr (positives newFeatures)"
proof -
  from assms have best: "findBestBoosterState std_sort aaadFeatures = Inr st" and idx: "0 \<le> getFeatureIdx st"
    and fn: "filter_examples st (negatives aaadFeatures) = Inr (negatives newFeatures)"
    and fp: "filter_examples st (positives aaadFeatures) = Inr (positives newFeatures)"
    by (auto simp: boosting_round_def bind_result_def CHECK_def split: sum.splits if_splits)
  from findBestBoosterState_accepted[OF best idx] fn fp show ?thesis by blast
qed

text \<open>
  Claim C7, for every \<^verbatim>\<open>std::sort\<close> that returns a sorted permutation.
  \<^verbatim>\<open>findBoosterState\<close> answers a rejected candidate with proportion 0 and an
  accepted one with its proportion (at least 0.1). Whenever a candidate
  (feature index, polarity) is accepted, its rule, applied to the current negative
  examples, removes at least 150 of them and at least 10% of them. Whenever a round adds a
  stage, the stage is an accepted candidate of that round, and the round's filtering removes
  at least 150 and at least 10% of the negatives. When every candidate of a round is
  rejected, the round adds no stage and the cascade search returns with the stages found so
  far and the examples unchanged.
\<close>

theorem booster_stage_acceptance_bound:
  assumes std: "sorts_by_one_feature std_sort"
  shows
  "(findBoosterState std_sort aaadFeatures i ra = Inr (p, st) \<and> p \<noteq> 0 \<longrightarrow>
      (\<exists>newNeg. filter_examples st (negatives aaadFeatures) = Inr newNeg
          \<and> 150 \<le> real (length (negatives aaadFeatures) - length newNeg)
          \<and> 0.1 * real (length (negatives aaadFeatures))
               \<le> real (length (negatives aaadFeatures) - length newNeg)))
   \<and> (boosting_round std_sort aaadFeatures = Inr (Some (st', newFeatures)) \<longrightarrow>
        (\<exists>c\<in>set (candidates (nDims_of aaadFeatures)). \<exists>q.
            findBoosterState std_sort aaadFeatures (snd c) (fst c) = Inr (q, st') \<and> q \<noteq> 0)
        \<and> 150 \<le> real (length (negatives aaadFeatures) - length (negatives newFeatures))
        \<and> 0.1 * real (length (negatives aaadFeatures))
             \<le> real (length (negatives aaadFeatures) - length (negatives newFeatures)))
   \<and> (negatives aaadFeatures \<noteq> []
        \<and> (\<forall>c\<in>set (candidates (nDims_of aaadFeatures)).
              findBoosterState std_sort aaadFeatures (snd c) (fst c)
                = Inr (0, CBoosterState_default)) \<longrightarrow>
        boosting_round std_sort aaadFeatures = Inr None
        \<and> findBoosterStates_loop std_sort aaadFeatures aBoosterStates
            = Inr (aBoosterStates, aaadFeatures))"
proof (intro conjI impI)
  assume "findBoosterState std_sort aaadFeatures i ra = Inr (p, st) \<and> p \<noteq> 0"
  then have "findBoosterState std_sort aaadFeatures i ra = Inr (p, st)" "p \<noteq> 0" by simp_all
  from findBoosterState_accepted[OF std this]
  show "\<exists>newNeg. filter_examples st (negatives aaadFeatures) = Inr newNeg
          \<and> 150 \<le> real (length (negatives aaadFeatures) - length newNeg)
          \<and> 0.1 * real (length (negatives aaadFeatures))
               \<le> real (length (negatives aaadFeatures) - length newNeg)"
    by blast
next
  assume r: "boosting_round std_sort aaadFeatures = Inr (Some (st', newFeatures))"
  from boosting_round_Some[OF r] obtain c q where
    c: "c \<in> set (candidates (nDims_of aaadFeatures))"
       "findBoosterState std_sort aaadFeatures (snd c) (fst c) = Inr (q, st')" "q \<noteq> 0"
       "filter_examples st' (negatives aaadFeatures) = Inr (negatives newFeatures)"
    by blast
  from c(1,2,3) show "\<exists>c\<in>set (candidates (nDims_of aaadFeatures)). \<exists>q.
            findBoosterState std_sort aaadFeatures (snd c) (fst c) = Inr (q, st') \<and> q \<noteq> 0"
    by blast
  from findBoosterState_accepted[OF std c(2,3)] c(4)
  show "150 \<le> real (length (negatives aaadFeatures) - length (negatives newFeatures))"
       "0.1 * real (length (negatives aaadFeatures))
             \<le> real (length (negatives aaadFeatures) - length (negatives newFeatures))"
    by auto
next
  assume h: "negatives aaadFeatures \<noteq> []
        \<and> (\<forall>c\<in>set (candidates (nDims_of aaadFeatures)).
              findBoosterState std_sort aaadFeatures (snd c) (fst c) = Inr (0, CBoosterState_default))"
  then obtain first rest where neg: "negatives aaadFeatures = first # rest"
    by (cases "negatives aaadFeatures") auto
  then have nd: "nDims_of aaadFeatures = length first" by (simp add: nDims_of_def)
  from h nd have "best_candidate_loop std_sort aaadFeatures (candidates (length first)) (0, CBoosterState_default)
          = Inr (0, CBoosterState_default)"
    by (intro best_candidate_loop_all_rejected) simp
  with neg have "findBestBoosterState std_sort aaadFeatures = Inr CBoosterState_default"
    by (simp add: findBestBoosterState_def bind_result_def)
  then show r: "boosting_round std_sort aaadFeatures = Inr None"
    by (simp add: boosting_round_def bind_result_def CBoosterState_default_def)
  then show "findBoosterStates_loop std_sort aaadFeatures aBoosterStates = Inr (aBoosterStates, aaadFeatures)"
    by simp
qed

lemma filter_examples_length:
  "filter_examples st fs = Inr fs' \<Longrightarrow> length fs' \<le> length fs"
proof (induction fs arbitrary: fs')
  case Nil
  then show ?case by simp
next
  case (Cons f fs)
  from Cons.prems obtain keep rest where
    "keepPotentialCandidate_mat st f = Inr keep" "filter_examples st fs = Inr rest"
    "fs' = (if keep then f # rest else rest)"
    by (auto simp: bind_result_def split: sum.splits)
  with Cons.IH[of rest] show ?case by simp
qed

lemma boosting_round_counts:
  assumes "boosting_round std_sort aaadFeatures = Inr (Some (st, newFeatures))"
  shows "length (negatives newFeatures) < length (negatives aaadFeatures)
       \<and> length (positives newFeatures) \<le> length (positives aaadFeatures)"
proof -
  from assms have "filter_examples st (positives aaadFeatures) = Inr (positives newFeatures)"
    by (auto simp: boosting_round_def bind_result_def CHECK_def split: sum.splits if_splits)
  from filter_examples_length[OF this] boosting_round_decreases[OF assms]
  show ?thesis by simp
qed

lemma findBoosterStates_loop_counts:
  "findBoosterStates_loop std_sort aaadFeatures aBoosterStates = Inr (states, final) \<Longrightarrow>
   length (negatives final) + length states \<le> length (negatives aaadFeatures) + length aBoosterStates
   \<and> length (positives final) \<le> length (positives aaadFeatures)"
proof (induction std_sort aaadFeatures aBoosterStates rule: findBoosterStates_loop.induct)
  case (1 std_sort aaadFeatures aBoosterStates)
  show ?case
  proof (cases "boosting_round std_sort aaadFeatures")
    case (Inl e)
    with "1.prems" show ?thesis by simp
  next
    case (Inr r)
    show ?thesis
    proof (cases r)
      case None
      with Inr "1.prems" show ?thesis by simp
    next
      case (Some sf)
      obtain st newFeatures where sf: "sf = (st, newFeatures)" by (cases sf)
      from Inr Some sf have round: "boosting_round std_sort aaadFeatures = Inr (Some (st, newFeatures))"
        by simp
      with "1.prems" have run:
        "findBoosterStates_loop std_sort newFeatures (aBoosterStates @ [st]) = Inr (states, final)"
        by simp
      from "1.IH"[OF Inr Some sf[symmetric] run] boosting_round_counts[OF round]
      show ?thesis by simp
    qed
  qed
qed

lemma column_error: "column fs i = Inl e \<Longrightarrow> e = OutOfRange"
  by (induction fs) (auto simp: vec_at_def bind_result_def split: sum.splits if_splits)

lemma findBoosterState_error: "findBoosterState std_sort aaadFeatures i ra = Inl e \<Longrightarrow> e = OutOfRange"
  by (auto simp: findBoosterState_def bind_result_def Let_def
           split: sum.splits prod.splits if_splits dest: column_error)

lemma best_candidate_loop_error:
  "best_candidate_loop std_sort aaadFeatures cands best0 = Inl e \<Longrightarrow> e = OutOfRange"
proof (induction cands arbitrary: best0)
  case Nil
  then show ?case by simp
next
  case (Cons c cands)
  obtain ra i where c: "c = (ra, i)" by (cases c)
  show ?case
  proof (cases "findBoosterState std_sort aaadFeatures i ra")
    case (Inl e')
    with Cons.prems c have "e = e'" by (simp add: bind_result_def)
    with findBoosterState_error[OF Inl] show ?thesis by simp
  next
    case (Inr cand)
    with Cons.prems c
    have "best_candidate_loop std_sort aaadFeatures cands (if fst cand > fst best0 then cand else best0) = Inl e"
      by (simp add: bind_result_def)
    from Cons.IH[OF this] show ?thesis .
  qed
qed

lemma findBestBoosterState_error: "findBestBoosterState std_sort aaadFeatures = Inl e \<Longrightarrow> e = OutOfRange"
  by (auto simp: findBestBoosterState_def bind_result_def
           split: list.splits sum.splits dest: best_candidate_loop_error)

lemma boosting_round_check_passes:
  assumes std: "sorts_by_one_feature std_sort"
  shows "boosting_round std_sort aaadFeatures \<noteq> Inl (Check ''Boosting failed'')"
proof
  assume fail: "boosting_round std_sort aaadFeatures = Inl (Check ''Boosting failed'')"
  show False
  proof (cases "findBestBoosterState std_sort aaadFeatures")
    case (Inl e)
    with fail findBestBoosterState_error[OF Inl] show False
      by (simp add: boosting_round_def bind_result_def)
  next
    case (Inr st)
    with fail have idx: "0 \<le> getFeatureIdx st"
      by (auto simp: boosting_round_def bind_result_def split: if_splits)
    from findBestBoosterState_accepted[OF Inr idx] obtain c p where
      "findBoosterState std_sort aaadFeatures (snd c) (fst c) = Inr (p, st)" "p \<noteq> 0"
      by blast
    from findBoosterState_accepted[OF std this] obtain newNeg newPos where
      f: "filter_examples st (negatives aaadFeatures) = Inr newNeg"
         "filter_examples st (positives aaadFeatures) = Inr newPos"
         "150 \<le> real (length (negatives aaadFeatures) - length newNeg)"
      by blast
    from f(3) have "length newNeg < length (negatives aaadFeatures)" by linarith
    with fail Inr idx f(1,2) show False
      by (simp add: boosting_round_def bind_result_def CHECK_def)
  qed
qed

text \<open>
  Claim C8. Every round that applies a stage leaves strictly fewer negative examples and
  no more positive examples than it found; over a whole construction the negative count
  drops by at least one per stage and the positive count does not grow. The check
  "Boosting failed" that guards the strict decrease never fires, whatever sorted
  permutation \<^verbatim>\<open>std::sort\<close> returns.
\<close>

theorem boosting_stage_monotone:
  assumes std: "sorts_by_one_feature std_sort"
  shows
  "(boosting_round std_sort aaadFeatures = Inr (Some (st, newFeatures)) \<longrightarrow>
      length (negatives newFeatures) < length (negatives aaadFeatures)
      \<and> length (positives newFeatures) \<le> length (positives aaadFeatures))
   \<and> (findBoosterStates std_sort aaadFeatures = Inr (states, final) \<longrightarrow>
        length (negatives final) + length states \<le> length (negatives aaadFeatures)
        \<and> length (positives final) \<le> length (positives aaadFeatures))
   \<and> boosting_round std_sort aaadFeatures \<noteq> Inl (Check ''Boosting failed'')"
  using boosting_round_counts[of std_sort aaadFeatures st newFeatures]
        findBoosterStates_loop_counts[of std_sort aaadFeatures "[]" states final]
        boosting_round_check_passes[OF std, of aaadFeatures]
  by (simp add: findBoosterStates_def)

lemma ex_boost_candidate_value:
  "findBoosterState sort_features (ex_boost 150) 0 False = Inr (150 / 151, ex_boost_stage)"
  by code_simp

lemma ex_boost_round_value:
  "boosting_round sort_features (ex_boost 150) = Inr (Some (ex_boost_stage, ex_boost_rest))"
  by code_simp

lemma ex_boost_rest_rejected:
  "list_all (\<lambda>c. findBoosterState sort_features ex_boost_rest (snd c) (fst c) = Inr (0, CBoosterState_default))
     (candidates (nDims_of ex_boost_rest))"
  by code_simp

lemma ex_boost_states_value:
  "findBoosterStates sort_features (ex_boost 150) = Inr ([ex_boost_stage], ex_boost_rest)"
  by code_simp

lemma ex_boost_lengths:
  "length (negatives (ex_boost 150)) = 151" "length (positives (ex_boost 150)) = 1"
  "length (negatives ex_boost_rest) = 1" "length (positives ex_boost_rest) = 1"
  "negatives ex_boost_rest \<noteq> []"
  by (simp_all add: ex_boost_def ex_boost_rest_def)

theorem booster_stage_acceptance_bound_witness:
  "findBoosterState sort_features (ex_boost 150) 0 False = Inr (150 / 151, ex_boost_stage)
   \<and> (\<exists>newNeg. filter_examples ex_boost_stage (negatives (ex_boost 150)) = Inr newNeg
          \<and> 150 \<le> real (length (negatives (ex_boost 150)) - length newNeg)
          \<and> 0.1 * real (length (negatives (ex_boost 150)))
               \<le> real (length (negatives (ex_boost 150)) - length newNeg))
   \<and> boosting_round sort_features (ex_boost 150) = Inr (Some (ex_boost_stage, ex_boost_rest))
   \<and> 150 \<le> real (length (negatives (ex_boost 150)) - length (negatives ex_boost_rest))
   \<and> negatives ex_boost_rest \<noteq> []
   \<and> list_all (\<lambda>c. findBoosterState sort_features ex_boost_rest (snd c) (fst c) = Inr (0, CBoosterState_default))
        (candidates (nDims_of ex_boost_rest))
   \<and> boosting_round sort_features ex_boost_rest = Inr None
   \<and> findBoosterStates_loop sort_features ex_boost_rest [ex_boost_stage] = Inr ([ex_boost_stage], ex_boost_rest)"
  using booster_stage_acceptance_bound
          [OF sort_features_sorts,
           of "ex_boost 150" 0 False "150 / 151" ex_boost_stage ex_boost_stage ex_boost_rest
              "[ex_boost_stage]"]
        booster_stage_acceptance_bound
          [OF sort_features_sorts,
           of ex_boost_rest 0 False 0 ex_boost_stage ex_boost_stage ex_boost_rest
              "[ex_boost_stage]"]
        ex_boost_candidate_value ex_boost_round_value ex_boost_rest_rejected ex_boost_lengths(5)
  by (simp add: list_all_iff)

theorem boosting_stage_monotone_witness:
  "boosting_round sort_features (ex_boost 150) = Inr (Some (ex_boost_stage, ex_boost_rest))
   \<and> length (negatives ex_boost_rest) < length (negatives (ex_boost 150))
   \<and> length (positives ex_boost_rest) \<le> length (positives (ex_boost 150))
   \<and> findBoosterStates sort_features (ex_boost 150) = Inr ([ex_boost_stage], ex_boost_rest)
   \<and> length (negatives ex_boost_rest) + length [ex_boost_stage]
        \<le> length (negatives (ex_boost 150))"
  using boosting_stage_monotone
          [OF sort_features_sorts,
           of "ex_boost 150" ex_boost_stage ex_boost_rest "[ex_boost_stage]" ex_boost_rest]
        ex_boost_round_value ex_boost_states_value
  by simp

section \<open>Properties of the cross-validation\<close>














section \<open>Properties of the training run\<close>

text \<open>
  Claim C10. Whenever the training run persists a state file, the booster states in it are
  the empty list and the file is what the saving constructor writes for the empty cascade
  (the flag \<^verbatim>\<open>bUseBoosting\<close> is the constant \<^verbatim>\<open>false\<close>, so \<^verbatim>\<open>findBoosterStates\<close> is not run);
  every classifier made from that file has no boosted filter and its cascade keeps every
  feature.
\<close>

theorem persisted_cascade_is_empty:
  "CSVMTraining_destructor std_sort meanSD trainSVM fNegRelativeWeight summary aaadFeatures = Inr (Some file)
   \<longrightarrow> yaml_boosterStates file = []
     \<and> (\<exists>featureSubset dSignFix PRLookup sigmoidParams details.
           file = CSavedSVMState_save [] featureSubset dSignFix PRLookup sigmoidParams details)
     \<and> (\<forall>svm_load dPrecision c.
           makeSVMClassifier (Some file) svm_load dPrecision = Inr c \<longrightarrow>
             boostedFilters c = []
             \<and> (\<forall>pFeature. keepPotentialCandidate (boostedFilters c) pFeature = Inr True))"
proof
  assume run: "CSVMTraining_destructor std_sort meanSD trainSVM fNegRelativeWeight summary aaadFeatures
                 = Inr (Some file)"
  then obtain featureSubset dSignFix PRLookup sigmoidParams details where
    saved: "file = CSavedSVMState_save [] featureSubset dSignFix PRLookup sigmoidParams details"
    by (auto simp: CSVMTraining_destructor_def bUseBoosting_def bind_result_def Let_def
             split: if_splits sum.splits prod.splits)
  then have empty: "yaml_boosterStates file = []"
    by (simp add: CSavedSVMState_save_def)
  have "boostedFilters c = []
        \<and> (\<forall>pFeature. keepPotentialCandidate (boostedFilters c) pFeature = Inr True)"
    if "makeSVMClassifier (Some file) svm_load dPrecision = Inr c" for svm_load dPrecision c
  proof -
    from that empty have "boostedFilters c = []"
      by (auto simp: makeSVMClassifier_def CSavedSVMState_load_def bind_result_def
               split: sum.splits)
    then show ?thesis by simp
  qed
  with saved empty show "yaml_boosterStates file = []
     \<and> (\<exists>featureSubset dSignFix PRLookup sigmoidParams details.
           file = CSavedSVMState_save [] featureSubset dSignFix PRLookup sigmoidParams details)
     \<and> (\<forall>svm_load dPrecision c.
           makeSVMClassifier (Some file) svm_load dPrecision = Inr c \<longrightarrow>
             boostedFilters c = []
             \<and> (\<forall>pFeature. keepPotentialCandidate (boostedFilters c) pFeature = Inr True))"
    by blast
qed

lemma ex_training_run:
  "CSVMTraining_destructor sort_features (\<lambda>adVals. (0, 1)) ex_trainSVM 1 [] ex_training_set
     = Inr (Some ex_trained_file)"
  by code_simp

lemma ex_trained_file_loads:
  "\<exists>c. makeSVMClassifier (Some ex_trained_file) (\<lambda>x. Some 0) NO_PRECISION = Inr c"
  by (simp add: makeSVMClassifier_def CSavedSVMState_load_def ex_trained_file_def
        CSavedSVMState_save_def bind_result_def)

theorem persisted_cascade_is_empty_witness:
  "CSVMTraining_destructor sort_features (\<lambda>adVals. (0, 1)) ex_trainSVM 1 [] ex_training_set
     = Inr (Some ex_trained_file)
   \<and> yaml_boosterStates ex_trained_file = []
   \<and> (\<exists>c. makeSVMClassifier (Some ex_trained_file) (\<lambda>x. Some 0) NO_PRECISION = Inr c
          \<and> boostedFilters c = []
          \<and> keepPotentialCandidate (boostedFilters c) (ex_feature 0 0) = Inr True)"
proof -
  from persisted_cascade_is_empty
         [of sort_features "\<lambda>adVals. (0, 1)" ex_trainSVM 1 "[]" ex_training_set
             ex_trained_file]
       ex_training_run
  have a: "yaml_boosterStates ex_trained_file = []"
    and b: "\<forall>svm_load dPrecision c.
           makeSVMClassifier (Some ex_trained_file) svm_load dPrecision = Inr c \<longrightarrow>
             boostedFilters c = []
             \<and> (\<forall>pFeature. keepPotentialCandidate (boostedFilters c) pFeature = Inr True)"
    by simp_all
  from ex_trained_file_loads obtain c where
    c: "makeSVMClassifier (Some ex_trained_file) (\<lambda>x. Some 0) NO_PRECISION = Inr c" by blast
  with b have "boostedFilters c = []"
    "keepPotentialCandidate (boostedFilters c) (ex_feature 0 0) = Inr True"
    by blast+
  with a c ex_training_run show ?thesis by blast
qed

end
